theory Spec2Isabelle
  imports Complex_Main "HOL-Library.Sublist"
begin

section \<open>Pagination metadata (src/lib/pagination.ts)\<close>

text \<open>
  JavaScript numbers are modelled as reals: the finite, non-NaN values of the
  source's \<open>number\<close> type. Here and in the hub adapter the arithmetic is exact; the
  scores of the stored documents are computed in double precision, as set out below.
  \<open>Math.ceil\<close> is the ceiling, \<open>Math.max\<close> and \<open>Math.min\<close> are \<open>max\<close>
  and \<open>min\<close>.
\<close>

record paginationMeta =
  currentPage :: real
  totalPages :: real
  totalCount :: real
  limit :: real
  hasNext :: bool
  hasPrev :: bool

definition buildPagination :: "real \<Rightarrow> real \<Rightarrow> real \<Rightarrow> paginationMeta" where
  "buildPagination page lmt cnt =
     (let tp = max 1 (of_int \<lceil>cnt / lmt\<rceil>);
          cp = min (max 1 page) tp
      in \<lparr> currentPage = cp, totalPages = tp, totalCount = cnt, limit = lmt,
           hasNext = (cp < tp), hasPrev = (cp > 1) \<rparr>)"

section \<open>Hub adapter score (HuggingFace integration utilities)\<close>

text \<open>
  The API payload \<open>HuggingFaceModel\<close>. Fields of different models that share a
  name carry a short prefix here (\<open>hf_\<close> for the payload, \<open>t_\<close> for the
  transformed object, \<open>m_\<close> for the stored AI model, \<open>r_\<close> for the stored
  repository). \<open>siblings\<close> is optional, each file's \<open>size\<close> too.
\<close>

record huggingFaceModel =
  hf_id :: string
  hf_modelId :: string
  hf_author :: string
  hf_downloads :: real
  hf_likes :: real
  hf_trending :: bool
  hf_private :: bool
  hf_tags :: "string list"
  hf_pipeline_tag :: "string option"
  hf_library_name :: "string option"
  hf_siblings :: "(string \<times> real option) list option"

text \<open>
  The object \<open>transformHuggingFaceModel\<close> returns, without \<open>categories\<close>, the
  card data and the three dates: none of them enters the score.
\<close>

record transformedModel =
  t_huggingFaceId :: string
  t_name :: string
  t_author :: string
  t_description :: string
  t_tags :: "string list"
  t_pipelineTag :: "string option"
  t_libraryName :: "string option"
  t_downloads :: real
  t_likes :: real
  t_trending :: bool
  t_huggingFaceScore :: real
  t_modelSize :: real
  t_isPrivate :: bool

text \<open>\<open>id.split('/').pop()\<close>: the part of the string after its last slash.\<close>

fun lastSegment :: "string \<Rightarrow> string \<Rightarrow> string" where
  "lastSegment acc [] = acc"
| "lastSegment acc (c # cs) = (if c = CHR ''/'' then lastSegment [] cs else lastSegment (acc @ [c]) cs)"

text \<open>\<open>file.size || 0\<close>: an absent size and the size 0 both count 0.\<close>

definition calculateModelSize :: "(string \<times> real option) list option \<Rightarrow> real" where
  "calculateModelSize siblings =
     (case siblings of
        None \<Rightarrow> 0
      | Some fs \<Rightarrow> if fs = [] then 0
                  else foldl (\<lambda>acc f. acc + (case snd f of None \<Rightarrow> 0 | Some sz \<Rightarrow> sz)) 0 fs)"

definition maxDownloads :: real where
  "maxDownloads = 10000000"

definition downloadScore :: "huggingFaceModel \<Rightarrow> real" where
  "downloadScore hfModel = min ((hf_downloads hfModel / maxDownloads) * 70) 70"

definition likeScore :: "huggingFaceModel \<Rightarrow> real" where
  "likeScore hfModel = min ((hf_likes hfModel / 1000) * 20) 20"

definition trendingBonus :: "huggingFaceModel \<Rightarrow> real" where
  "trendingBonus hfModel = (if hf_trending hfModel then 10 else 0)"

definition transformHuggingFaceModel :: "huggingFaceModel \<Rightarrow> transformedModel" where
  "transformHuggingFaceModel hfModel =
     (let huggingFaceScore = downloadScore hfModel + likeScore hfModel + trendingBonus hfModel;
          modelSize = calculateModelSize (hf_siblings hfModel);
          seg = lastSegment [] (hf_id hfModel)
      in \<lparr> t_huggingFaceId = hf_id hfModel,
           t_name = (if seg = [] then hf_id hfModel else seg),
           t_author = hf_author hfModel,
           t_description = [],
           t_tags = hf_tags hfModel,
           t_pipelineTag = hf_pipeline_tag hfModel,
           t_libraryName = hf_library_name hfModel,
           t_downloads = hf_downloads hfModel,
           t_likes = hf_likes hfModel,
           t_trending = hf_trending hfModel,
           t_huggingFaceScore = huggingFaceScore,
           t_modelSize = modelSize,
           t_isPrivate = hf_private hfModel \<rparr>)"

text \<open>
  The formula the specification documents for the same item, written from its words:
  \<open>min(log10(downloads+1)/log10(ceiling+1)*70, 70) + min(likes/1000*20, 20) + bonus\<close>.
\<close>

definition documentedExternalScore :: "real \<Rightarrow> real \<Rightarrow> bool \<Rightarrow> real" where
  "documentedExternalScore downloads likes trending =
     min (log 10 (downloads + 1) / log 10 (10000000 + 1) * 70) 70
     + min (likes / 1000 * 20) 20 + (if trending then 10 else 0)"

text \<open>The hub item of the documented scenario.\<close>

definition hubItem :: huggingFaceModel where
  "hubItem = \<lparr> hf_id = ''org/model'', hf_modelId = ''org/model'', hf_author = ''org'',
      hf_downloads = 1000000, hf_likes = 500, hf_trending = True, hf_private = False,
      hf_tags = [], hf_pipeline_tag = None, hf_library_name = None, hf_siblings = None \<rparr>"

section \<open>Double-precision arithmetic\<close>

text \<open>
  The scores of the stored documents are blended and, for a repository, rounded to an
  integer by \<open>Math.round\<close>, where the last binary place of the sum decides the result.
  Their arithmetic is therefore modelled as the runtime performs it, in IEEE 754 double
  precision: every operation gives the double nearest to the exact result, a tie going
  to the even significand. \<open>fl\<close> is that rounding for results of normal magnitude (53
  significant bits; no subnormal number, no overflow), which is where the scores live; a
  decimal literal \<open>c\<close> of the source is the double \<open>fl c\<close>. The fields of a document
  hold doubles.
\<close>

definition rne :: "real \<Rightarrow> int" where
  "rne y = (let f = \<lfloor>y\<rfloor>
            in if y - of_int f < 1 / 2 then f
               else if 1 / 2 < y - of_int f then f + 1
               else if even f then f else f + 1)"

definition expo :: "real \<Rightarrow> int" where
  "expo x = \<lfloor>log 2 \<bar>x\<bar>\<rfloor>"

definition fl :: "real \<Rightarrow> real" where
  "fl x = (if x = 0 then 0
           else of_int (rne (x / 2 powi (expo x - 52))) * 2 powi (expo x - 52))"

definition fadd :: "real \<Rightarrow> real \<Rightarrow> real" where
  "fadd a b = fl (a + b)"

definition fsub :: "real \<Rightarrow> real \<Rightarrow> real" where
  "fsub a b = fl (a - b)"

definition fmul :: "real \<Rightarrow> real \<Rightarrow> real" where
  "fmul a b = fl (a * b)"

definition fdiv :: "real \<Rightarrow> real \<Rightarrow> real" where
  "fdiv a b = fl (a / b)"

section \<open>Stored AI model and its save hook (src/models/AIModel.ts)\<close>

text \<open>
  The stored document: the paths the schema validates (the identification strings, the
  metrics, the scores and the size) and the sync date.
\<close>

record aiModel =
  m_huggingFaceId :: string
  m_name :: string
  m_author :: string
  m_description :: string
  m_downloads :: real
  m_likes :: real
  m_trending :: bool
  m_huggingFaceScore :: real
  m_userVotes :: real
  m_userRating :: real
  m_userScore :: real
  m_finalScore :: real
  m_modelSize :: real
  m_lastSynced :: real

text \<open>The \<open>pre('save')\<close> hook: the user score first, then the blend.\<close>

definition aiModel_preSave :: "aiModel \<Rightarrow> aiModel" where
  "aiModel_preSave this =
     (let this1 =
            (if m_userVotes this > 0
             then (let ratingScore = fmul (fdiv (m_userRating this) 5) 80;
                       popularityBonus = min (fmul (fdiv (m_userVotes this) 100) 20) 20
                   in this\<lparr> m_userScore := fadd ratingScore popularityBonus \<rparr>)
             else this\<lparr> m_userScore := 0 \<rparr>)
      in this1\<lparr> m_finalScore := fadd (fmul (m_huggingFaceScore this1) (fl 0.85))
                                       (fmul (m_userScore this1) (fl 0.15)) \<rparr>)"

text \<open>
  \<open>this.save()\<close> on a stored model. The ODM validates the document against
  \<open>AIModelSchema\<close> before it runs the \<open>pre('save')\<close> hook: the required strings
  are not empty, the \<open>maxlength\<close>, \<open>min\<close> and \<open>max\<close> bounds hold. The scores it
  checks are the ones the document holds before the hook recomputes them. A document that
  fails is rejected: the hook does not run and nothing is persisted. A document that
  passes is persisted as the hook leaves it.
\<close>

datatype persistenceError = ValidationError | DuplicateKey

definition validateAIModel :: "aiModel \<Rightarrow> bool" where
  "validateAIModel this =
     (m_huggingFaceId this \<noteq> []
      \<and> m_name this \<noteq> [] \<and> length (m_name this) \<le> 200
      \<and> m_author this \<noteq> []
      \<and> length (m_description this) \<le> 2000
      \<and> 0 \<le> m_downloads this
      \<and> 0 \<le> m_likes this
      \<and> 0 \<le> m_huggingFaceScore this \<and> m_huggingFaceScore this \<le> 100
      \<and> 0 \<le> m_userVotes this
      \<and> 0 \<le> m_userRating this \<and> m_userRating this \<le> 5
      \<and> 0 \<le> m_userScore this \<and> m_userScore this \<le> 100
      \<and> 0 \<le> m_finalScore this \<and> m_finalScore this \<le> 100
      \<and> 0 \<le> m_modelSize this)"

definition aiModel_save :: "aiModel \<Rightarrow> persistenceError + aiModel" where
  "aiModel_save this =
     (if validateAIModel this then Inr (aiModel_preSave this) else Inl ValidationError)"

text \<open>
  \<open>updateUserRating\<close> and \<open>syncFromHuggingFace\<close> assign and save. In
  \<open>hfData.x || 0\<close> an absent field is \<open>None\<close>.
\<close>

definition updateUserRating :: "real \<Rightarrow> real \<Rightarrow> aiModel \<Rightarrow> persistenceError + aiModel" where
  "updateUserRating newVoteCount newAvgRating this =
     aiModel_save (this\<lparr> m_userVotes := newVoteCount, m_userRating := newAvgRating \<rparr>)"

record hfData =
  d_downloads :: "real option"
  d_likes :: "real option"
  d_trending :: "bool option"
  d_huggingFaceScore :: "real option"

definition orZero :: "real option \<Rightarrow> real" where
  "orZero v = (case v of None \<Rightarrow> 0 | Some x \<Rightarrow> x)"

definition syncFromHuggingFace :: "real \<Rightarrow> hfData \<Rightarrow> aiModel \<Rightarrow> persistenceError + aiModel" where
  "syncFromHuggingFace now d this =
     aiModel_save (this\<lparr> m_downloads := orZero (d_downloads d),
                            m_likes := orZero (d_likes d),
                            m_trending := (case d_trending d of None \<Rightarrow> False | Some b \<Rightarrow> b),
                            m_huggingFaceScore := orZero (d_huggingFaceScore d),
                            m_lastSynced := now \<rparr>)"

text \<open>A stored model with fifty votes at four stars, for the examples.\<close>

definition sampleModel :: aiModel where
  "sampleModel = \<lparr> m_huggingFaceId = ''org/model'', m_name = ''model'', m_author = ''org'',
      m_description = [], m_downloads = 1000000, m_likes = 500,
      m_trending = True, m_huggingFaceScore = 27, m_userVotes = 50, m_userRating = 4,
      m_userScore = 0, m_finalScore = 0, m_modelSize = 0, m_lastSynced = 0 \<rparr>"

text \<open>Fresh metrics from the hub for it.\<close>

definition sampleData :: hfData where
  "sampleData = \<lparr> d_downloads = Some 2000000, d_likes = Some 600, d_trending = Some True,
      d_huggingFaceScore = Some 80 \<rparr>"

section \<open>Stored repository and its scores (GitHub repository schema)\<close>

record gitHubRepository =
  r_name :: string
  r_topics :: "string list"
  r_stargazersCount :: real
  r_forksCount :: real
  r_openIssuesCount :: real
  r_pushedAt :: "real option"
  r_trending :: bool
  r_trendingScore :: real
  r_dailyStars :: real
  r_userScore :: real
  r_finalScore :: real
  r_updatedAt :: real

text \<open>\<open>String.prototype.includes\<close>: the second string occurs inside the first.\<close>

fun str_includes :: "string \<Rightarrow> string \<Rightarrow> bool" where
  "str_includes [] sub = (sub = [])"
| "str_includes (c # cs) sub = (prefix sub (c # cs) \<or> str_includes cs sub)"

text \<open>
  \<open>Math.round\<close> of a double: the nearest integer, a half going up, computed exactly.
\<close>

definition Math_round :: "real \<Rightarrow> real" where
  "Math_round x = of_int \<lfloor>x + 1 / 2\<rfloor>"

definition aiTopics :: "string list" where
  "aiTopics = [''ai'', ''ml'', ''machine-learning'', ''deep-learning'', ''neural-network'',
               ''computer-vision'', ''nlp'', ''data-science'', ''tensorflow'', ''pytorch'']"

text \<open>
  \<open>calculateTrendingScore\<close>. The runtime's \<open>Math.log10\<close>, whose last place the
  language leaves to the implementation, and the clock reading \<open>Date.now()\<close>
  (milliseconds) are arguments. The sum is taken from left to right, as the source
  writes it.
\<close>

definition calculateTrendingScore :: "(real \<Rightarrow> real) \<Rightarrow> real \<Rightarrow> gitHubRepository \<Rightarrow> real" where
  "calculateTrendingScore log10 now this =
     (let starsWeight = fl 0.4; forksWeight = fl 0.2; issuesWeight = fl 0.15;
          recentActivityWeight = fl 0.15; topicsWeight = fl 0.1;
          normalizedStars = min (fmul (log10 (fadd (r_stargazersCount this) 1)) 10) 40;
          normalizedForks = min (fmul (log10 (fadd (r_forksCount this) 1)) 5) 20;
          issuesScore = max (fsub 15 (fdiv (r_openIssuesCount this) 10)) 0;
          daysSinceLastPush =
            (case r_pushedAt this of
               Some p \<Rightarrow> fdiv (fsub now p) (1000 * 60 * 60 * 24)
             | None \<Rightarrow> 365);
          activityScore = max (fsub 15 (fdiv daysSinceLastPush 7)) 0;
          topicsScore = fmul (real (length (filter (\<lambda>topic. list_ex (\<lambda>aiTopic. str_includes topic aiTopic) aiTopics)
                                             (r_topics this)))) 2;
          score = fadd (fadd (fadd (fadd (fmul normalizedStars starsWeight)
                                         (fmul normalizedForks forksWeight))
                                   (fmul issuesScore issuesWeight))
                             (fmul activityScore recentActivityWeight))
                       (fmul topicsScore topicsWeight)
      in min (Math_round score) 100)"

text \<open>
  \<open>calculateFinalScore\<close>. \<open>this.userScore || 0\<close> is the user score itself: the
  only finite number it replaces is 0.
\<close>

definition calculateFinalScore :: "(real \<Rightarrow> real) \<Rightarrow> real \<Rightarrow> gitHubRepository \<Rightarrow> real" where
  "calculateFinalScore log10 now this =
     (let githubWeight = fl 0.85; userWeight = fl 0.15;
          githubScore = calculateTrendingScore log10 now this;
          userScore = r_userScore this
      in Math_round (fadd (fmul githubScore githubWeight) (fmul userScore userWeight)))"

text \<open>
  The score part of the repository's \<open>pre('save')\<close> hook; the hook reads the clock
  once in each of the two score methods and once for \<open>updatedAt\<close>. Its last part
  assigns AI categories and reads no score.
\<close>

definition gitHubRepository_preSave ::
  "(real \<Rightarrow> real) \<Rightarrow> real \<Rightarrow> real \<Rightarrow> real \<Rightarrow> gitHubRepository \<Rightarrow> gitHubRepository" where
  "gitHubRepository_preSave log10 now1 now2 now3 this =
     (let this1 = this\<lparr> r_trendingScore := calculateTrendingScore log10 now1 this \<rparr>;
          this2 = this1\<lparr> r_finalScore := calculateFinalScore log10 now2 this1 \<rparr>;
          this3 = this2\<lparr> r_updatedAt := now3 \<rparr>
      in this3\<lparr> r_trending := (r_trendingScore this3 \<ge> 70 \<or> r_dailyStars this3 \<ge> 10) \<rparr>)"

text \<open>
  The examples: a repository without stars, forks or topics, with 150 open issues and a
  user score of 10, last pushed at time 0; the same repository with three AI topics and
  a user score of 31; a clock reading 365 days (in milliseconds) later; and a
  \<open>Math.log10\<close> that is correctly rounded (it gives \<open>log10(1) = 0\<close>, which the
  language requires of every implementation).
\<close>

definition quietRepository :: gitHubRepository where
  "quietRepository = \<lparr> r_name = ''repo'', r_topics = [], r_stargazersCount = 0, r_forksCount = 0,
      r_openIssuesCount = 150, r_pushedAt = Some 0, r_trending = False, r_trendingScore = 0,
      r_dailyStars = 0, r_userScore = 10, r_finalScore = 0, r_updatedAt = 0 \<rparr>"

definition taggedRepository :: gitHubRepository where
  "taggedRepository = quietRepository\<lparr> r_topics := [''ai'', ''ml'', ''nlp''], r_userScore := 31 \<rparr>"

definition yearLater :: real where
  "yearLater = 31536000000"

definition roundedLog10 :: "real \<Rightarrow> real" where
  "roundedLog10 x = fl (log 10 x)"

section \<open>Sync bookkeeping of an account (XAccount model)\<close>

text \<open>
  The document, without the profile fields \<open>name\<close>, \<open>description\<close>,
  \<open>category\<close> and \<open>rateLimitWeight\<close>, which the two methods leave alone.
  Both methods assign to the document and return \<open>this.save()\<close>. The model returns
  the document as the method leaves it, together with what the ODM's \<open>save\<close>, an
  argument here, answers for it.
\<close>

record xAccount =
  handle :: string
  isEnabled :: bool
  isVerified :: bool
  followerCount :: int
  lastSyncAt :: "int option"
  syncErrorCount :: int
  lastSyncError :: "string option"
  priority :: int

definition markSyncSuccess :: "(xAccount \<Rightarrow> 'r) \<Rightarrow> int \<Rightarrow> xAccount \<Rightarrow> xAccount \<times> 'r" where
  "markSyncSuccess save now this =
     (let this1 = this\<lparr> lastSyncAt := Some now \<rparr>;
          this2 = this1\<lparr> syncErrorCount := 0 \<rparr>;
          this3 = this2\<lparr> lastSyncError := None \<rparr>
      in (this3, save this3))"

definition markSyncError :: "(xAccount \<Rightarrow> 'r) \<Rightarrow> string \<Rightarrow> xAccount \<Rightarrow> xAccount \<times> 'r" where
  "markSyncError save err this =
     (let this1 = this\<lparr> syncErrorCount := syncErrorCount this + 1 \<rparr>;
          this2 = this1\<lparr> lastSyncError := Some err \<rparr>;
          this3 = (if syncErrorCount this2 \<ge> 5 then this2\<lparr> isEnabled := False \<rparr> else this2)
      in (this3, save this3))"

text \<open>A run of failed syncs on one document: one \<open>markSyncError\<close> per error message.\<close>

fun failedRuns :: "(xAccount \<Rightarrow> 'r) \<Rightarrow> string list \<Rightarrow> xAccount \<Rightarrow> xAccount" where
  "failedRuns save [] this = this"
| "failedRuns save (err # errs) this = failedRuns save errs (fst (markSyncError save err this))"

text \<open>An enabled account that has never failed.\<close>

definition freshAccount :: xAccount where
  "freshAccount = \<lparr> handle = ''someone'', isEnabled = True, isVerified = False, followerCount = 0,
      lastSyncAt = None, syncErrorCount = 0, lastSyncError = None, priority = 5 \<rparr>"

section \<open>Feed ingestion (src/utils/rss-parser.ts, src/models/Article.ts)\<close>

text \<open>
  The feed document as the loop reads it: \<open>_id\<close>, \<open>title\<close>, \<open>category\<close> and
  the property \<open>feedUrl\<close>, which the Feed schema does not define (it is \<open>None\<close> on a
  stored feed). An item of a parsed feed has the fields of \<open>ParsedFeedItem\<close>; the
  enclosure is a pair of its url and its type.
\<close>

record feedDoc =
  f_id :: nat
  f_title :: string
  f_url :: string
  f_category :: string
  f_feedUrl :: "string option"

record parsedFeedItem =
  i_title :: string
  i_description :: "string option"
  i_content :: "string option"
  i_link :: string
  i_pubDate :: "string option"
  i_author :: "string option"
  i_guid :: "string option"
  i_contentSnippet :: "string option"
  i_enclosure :: "(string \<times> string) option"

datatype contentType = ArticleContent | VideoContent

text \<open>
  The stored article: the fields the loop sets. The counters \<open>likes\<close>, \<open>dislikes\<close>,
  \<open>views\<close> and \<open>ranking\<close> start at their default 0 and the loop never writes them.
\<close>

record article =
  a_title :: string
  a_description :: "string option"
  a_content :: "string option"
  a_url :: string
  a_originalUrl :: string
  a_contentType :: contentType
  a_feedId :: nat
  a_feedTitle :: string
  a_category :: string
  a_author :: "string option"
  a_publishedAt :: "real option"
  a_imageUrl :: "string option"
  a_isActive :: bool

text \<open>
  What the JavaScript runtime and its URL and regular-expression libraries decide:
  \<open>parseDate s\<close> is \<open>new Date(s)\<close> (\<open>None\<close> for an invalid date),
  \<open>validUrl u\<close> says that \<open>new URL(u)\<close> does not throw, \<open>imgSrc c\<close> is the
  first group of the \<open>img\<close> pattern matched against \<open>c\<close>, and \<open>trimString s\<close> is
  \<open>String.prototype.trim\<close>, which the schema's \<open>trim\<close> setter calls: it strips the
  white space and the line terminators of Unicode (the no-break space and the byte order
  mark among them) from both ends.
\<close>

record runtime =
  parseDate :: "string \<Rightarrow> real option"
  validUrl :: "string \<Rightarrow> bool"
  imgSrc :: "string \<Rightarrow> string option"
  trimString :: "string \<Rightarrow> string"

text \<open>
  What \<open>String.prototype.trim\<close> does to a text of ASCII characters, for the
  scenarios below, whose texts are ASCII: the white space of ASCII is the space, the
  tab, the line feed, the vertical tab, the form feed and the carriage return.
\<close>

definition isAsciiSpace :: "char \<Rightarrow> bool" where
  "isAsciiSpace c = List.member [CHR '' '', CHR 0x09, CHR 0x0A, CHR 0x0B, CHR 0x0C, CHR 0x0D] c"

definition trimAscii :: "string \<Rightarrow> string" where
  "trimAscii s = rev (dropWhile isAsciiSpace (rev (dropWhile isAsciiSpace s)))"

text \<open>
  \<open>determineContentType\<close>. The item properties \<open>videoId\<close> and \<open>channelId\<close> are
  not fields of \<open>ParsedFeedItem\<close> and read as undefined.
\<close>

definition determineContentType :: "feedDoc \<Rightarrow> parsedFeedItem \<Rightarrow> contentType" where
  "determineContentType feed item =
     (if (case f_feedUrl feed of None \<Rightarrow> False | Some u \<Rightarrow> str_includes u ''youtube.com'')
      then VideoContent
      else (let link = i_link item
            in if str_includes link ''youtube.com'' \<or> str_includes link ''youtu.be''
               then VideoContent else ArticleContent))"

text \<open>
  \<open>extractImageUrl\<close> on a \<open>ParsedFeedItem\<close>: the enclosure when its type mentions
  an image, otherwise the \<open>img\<close> pattern on \<open>content || description || ''\<close>.
\<close>

definition truthy :: "string option \<Rightarrow> bool" where
  "truthy v = (case v of None \<Rightarrow> False | Some s \<Rightarrow> s \<noteq> [])"

definition contentOrDescription :: "parsedFeedItem \<Rightarrow> string" where
  "contentOrDescription item =
     (if truthy (i_content item) then (case i_content item of Some c \<Rightarrow> c | None \<Rightarrow> [])
      else if truthy (i_description item) then (case i_description item of Some d \<Rightarrow> d | None \<Rightarrow> [])
      else [])"

definition extractImageUrl :: "runtime \<Rightarrow> parsedFeedItem \<Rightarrow> string option" where
  "extractImageUrl rt item =
     (if (case i_enclosure item of Some (u, ty) \<Rightarrow> str_includes ty ''image'' | None \<Rightarrow> False)
      then map_option fst (i_enclosure item)
      else imgSrc rt (contentOrDescription item))"

text \<open>
  \<open>new Article({...})\<close>: the document the loop builds, with the schema's \<open>trim\<close>
  setters applied. \<open>now\<close> is the clock reading used when the item has no date.
\<close>

definition newArticle :: "runtime \<Rightarrow> real \<Rightarrow> feedDoc \<Rightarrow> parsedFeedItem \<Rightarrow> article" where
  "newArticle rt now feed item =
     \<lparr> a_title = trimString rt (i_title item),
       a_description = map_option (trimString rt) (i_description item),
       a_content = map_option (trimString rt) (i_content item),
       a_url = i_link item,
       a_originalUrl = i_link item,
       a_contentType = determineContentType feed item,
       a_feedId = f_id feed,
       a_feedTitle = trimString rt (f_title feed),
       a_category = trimString rt (f_category feed),
       a_author = map_option (trimString rt) (i_author item),
       a_publishedAt = (case i_pubDate item of
                          Some d \<Rightarrow> if d \<noteq> [] then parseDate rt d else Some now
                        | None \<Rightarrow> Some now),
       a_imageUrl = map_option (trimString rt) (extractImageUrl rt item),
       a_isActive = True \<rparr>"

text \<open>
  Validation of a new document against \<open>ArticleSchema\<close>: required strings are not
  empty, the \<open>maxlength\<close> bounds hold, the date is valid and the image URL, when there
  is one, passes the schema's validator. The \<open>videoId\<close> validator does not run, the
  loop leaves that path undefined.
\<close>

definition withinLength :: "nat \<Rightarrow> string option \<Rightarrow> bool" where
  "withinLength n v = (case v of None \<Rightarrow> True | Some s \<Rightarrow> length s \<le> n)"

definition validateArticle :: "runtime \<Rightarrow> article \<Rightarrow> bool" where
  "validateArticle rt a =
     (a_title a \<noteq> [] \<and> length (a_title a) \<le> 300
      \<and> withinLength 1000 (a_description a)
      \<and> a_url a \<noteq> [] \<and> a_originalUrl a \<noteq> []
      \<and> a_feedTitle a \<noteq> [] \<and> a_category a \<noteq> []
      \<and> withinLength 100 (a_author a)
      \<and> a_publishedAt a \<noteq> None
      \<and> (case a_imageUrl a of None \<Rightarrow> True | Some u \<Rightarrow> u = [] \<or> validUrl rt u))"

text \<open>
  \<open>article.save()\<close> on the collection, a list in insertion order: validation first,
  then the unique index on \<open>url\<close>, then the insert. A store failure other than these
  two (a lost connection) is outside the model.
\<close>

definition save :: "runtime \<Rightarrow> article list \<Rightarrow> article \<Rightarrow> persistenceError + article list" where
  "save rt store a =
     (if \<not> validateArticle rt a then Inl ValidationError
      else if list_ex (\<lambda>b. a_url b = a_url a) store then Inl DuplicateKey
      else Inr (store @ [a]))"

text \<open>
  The query of the loop, \<open>{$or: [{url}, {originalUrl}, {title, feedId}]}\<close>, as data.
  The ODM casts the filter by the schema, so the title of the query passes through the
  same \<open>trim\<close> setter as a stored title. \<open>findOne\<close> answers the first stored
  document that satisfies some clause.
\<close>

datatype clause = UrlIs string | OriginalUrlIs string | TitleInFeed string nat

definition satisfies :: "article \<Rightarrow> clause \<Rightarrow> bool" where
  "satisfies a c =
     (case c of
        UrlIs u \<Rightarrow> a_url a = u
      | OriginalUrlIs u \<Rightarrow> a_originalUrl a = u
      | TitleInFeed t f \<Rightarrow> a_title a = t \<and> a_feedId a = f)"

definition findOne :: "article list \<Rightarrow> clause list \<Rightarrow> article option" where
  "findOne store orClauses = find (\<lambda>a. list_ex (satisfies a) orClauses) store"

definition existingQuery :: "runtime \<Rightarrow> feedDoc \<Rightarrow> parsedFeedItem \<Rightarrow> clause list" where
  "existingQuery rt feed item =
     [UrlIs (i_link item), OriginalUrlIs (i_link item),
      TitleInFeed (trimString rt (i_title item)) (f_id feed)]"

record counters =
  saved :: nat
  skipped :: nat
  errors :: nat

text \<open>
  One turn of the loop of \<open>processFeedItems\<close>, on the collection and the counters:
  an existing article is skipped, a new one is saved, and what \<open>save\<close> raises is
  caught and counted.
\<close>

definition processItem ::
  "runtime \<Rightarrow> real \<Rightarrow> feedDoc \<Rightarrow> parsedFeedItem \<Rightarrow> article list \<times> counters \<Rightarrow> article list \<times> counters" where
  "processItem rt now feed item st =
     (case findOne (fst st) (existingQuery rt feed item) of
        Some existingArticle \<Rightarrow> (fst st, (snd st)\<lparr> skipped := skipped (snd st) + 1 \<rparr>)
      | None \<Rightarrow>
          (case save rt (fst st) (newArticle rt now feed item) of
             Inr store' \<Rightarrow> (store', (snd st)\<lparr> saved := saved (snd st) + 1 \<rparr>)
           | Inl err \<Rightarrow> (fst st, (snd st)\<lparr> errors := errors (snd st) + 1 \<rparr>)))"

fun processLoop ::
  "runtime \<Rightarrow> real \<Rightarrow> feedDoc \<Rightarrow> parsedFeedItem list \<Rightarrow> article list \<times> counters \<Rightarrow> article list \<times> counters" where
  "processLoop rt now feed [] st = st"
| "processLoop rt now feed (item # items) st = processLoop rt now feed items (processItem rt now feed item st)"

definition processFeedItems ::
  "runtime \<Rightarrow> real \<Rightarrow> feedDoc \<Rightarrow> parsedFeedItem list \<Rightarrow> article list \<Rightarrow> article list \<times> counters" where
  "processFeedItems rt now feed items store =
     processLoop rt now feed items (store, \<lparr> saved = 0, skipped = 0, errors = 0 \<rparr>)"

text \<open>
  \<open>processAllFeeds\<close> over the active feeds. \<open>parseFeed\<close>, an argument, answers
  \<open>None\<close> where the source's \<open>parseFeed\<close> returns null (fetching or parsing raised).
\<close>

datatype feedStatus = StatusSuccess | StatusFailed | StatusError

record feedResult =
  fr_feedId :: nat
  fr_feedTitle :: string
  fr_status :: feedStatus
  fr_counts :: "counters option"

record summary =
  totalProcessed :: nat
  totalSaved :: nat
  totalSkipped :: nat
  totalErrors :: nat
  feedResults :: "feedResult list"

definition processFeed ::
  "runtime \<Rightarrow> real \<Rightarrow> (string \<Rightarrow> parsedFeedItem list option) \<Rightarrow> feedDoc
     \<Rightarrow> article list \<times> summary \<Rightarrow> article list \<times> summary" where
  "processFeed rt now parseFeed feed st =
     (case parseFeed (f_url feed) of
        None \<Rightarrow>
          (fst st, (snd st)\<lparr> feedResults := feedResults (snd st) @
              [\<lparr> fr_feedId = f_id feed, fr_feedTitle = f_title feed, fr_status = StatusFailed,
                 fr_counts = None \<rparr>] \<rparr>)
      | Some items \<Rightarrow>
          (let r = processFeedItems rt now feed items (fst st)
           in (fst r,
               (snd st)\<lparr> totalSaved := totalSaved (snd st) + saved (snd r),
                          totalSkipped := totalSkipped (snd st) + skipped (snd r),
                          totalErrors := totalErrors (snd st) + errors (snd r),
                          feedResults := feedResults (snd st) @
                            [\<lparr> fr_feedId = f_id feed, fr_feedTitle = f_title feed,
                               fr_status = StatusSuccess, fr_counts = Some (snd r) \<rparr>] \<rparr>)))"

definition processAllFeeds ::
  "runtime \<Rightarrow> real \<Rightarrow> (string \<Rightarrow> parsedFeedItem list option) \<Rightarrow> feedDoc list
     \<Rightarrow> article list \<Rightarrow> article list \<times> summary" where
  "processAllFeeds rt now parseFeed feeds store =
     foldl (\<lambda>st feed. processFeed rt now parseFeed feed st)
       (store, \<lparr> totalProcessed = length feeds, totalSaved = 0, totalSkipped = 0, totalErrors = 0,
                 feedResults = [] \<rparr>) feeds"

text \<open>
  Observations on a run, for stating its properties. \<open>matched\<close> is the decision
  of the loop's query. \<open>persistenceRaises\<close> says that the turn for an item reaches
  \<open>save\<close> and \<open>save\<close> raises; \<open>raisedAt\<close> lists it for every item of a batch,
  each on the collection as the turns before it left it. \<open>settled\<close> says that a turn
  for the item can no longer insert anything.
\<close>

definition matched :: "runtime \<Rightarrow> article list \<Rightarrow> feedDoc \<Rightarrow> parsedFeedItem \<Rightarrow> bool" where
  "matched rt store feed item = (findOne store (existingQuery rt feed item) \<noteq> None)"

definition settled :: "runtime \<Rightarrow> feedDoc \<Rightarrow> article list \<Rightarrow> parsedFeedItem \<Rightarrow> bool" where
  "settled rt feed store item =
     (matched rt store feed item \<or> \<not> validateArticle rt (newArticle rt 0 feed item))"

definition persistenceRaises :: "runtime \<Rightarrow> real \<Rightarrow> feedDoc \<Rightarrow> article list \<Rightarrow> parsedFeedItem \<Rightarrow> bool" where
  "persistenceRaises rt now feed store item =
     (findOne store (existingQuery rt feed item) = None \<and> isl (save rt store (newArticle rt now feed item)))"

fun raisedAt :: "runtime \<Rightarrow> real \<Rightarrow> feedDoc \<Rightarrow> parsedFeedItem list \<Rightarrow> article list \<Rightarrow> bool list" where
  "raisedAt rt now feed [] store = []"
| "raisedAt rt now feed (item # items) store =
     persistenceRaises rt now feed store item
       # raisedAt rt now feed items (fst (processItem rt now feed item (store, \<lparr> saved = 0, skipped = 0, errors = 0 \<rparr>)))"

text \<open>
  The Deduplicator as the specification words it, for comparison with the loop's query:
  the first rule that matches decides, (1) the canonical URL, (2) the external id with
  the source kind, (3) title, author and source kind together. \<open>externalIdOf\<close> reads
  the external id of a stored record; the Article schema stores none.
\<close>

definition precedenceDeduplicate ::
  "(article \<Rightarrow> string option) \<Rightarrow> article list \<Rightarrow> feedDoc \<Rightarrow> parsedFeedItem \<Rightarrow> article option" where
  "precedenceDeduplicate externalIdOf store feed item =
     (case find (\<lambda>a. a_url a = i_link item) store of
        Some a \<Rightarrow> Some a
      | None \<Rightarrow>
          (case find (\<lambda>a. externalIdOf a \<noteq> None \<and> externalIdOf a = i_guid item
                          \<and> a_contentType a = determineContentType feed item) store of
             Some a \<Rightarrow> Some a
           | None \<Rightarrow>
               find (\<lambda>a. a_title a = i_title item \<and> a_author a = i_author item
                         \<and> a_contentType a = determineContentType feed item) store))"

text \<open>
  The scenarios, all of ASCII texts: a syndication source synced twice (the second feed repeats the first
  item, changes the title of the second and brings a fourth), an item whose link gained
  a tracking parameter and an author, and a batch of ten whose fourth item has no link,
  which the schema's required \<open>url\<close> refuses.
\<close>

definition plainRuntime :: runtime where
  "plainRuntime = \<lparr> parseDate = (\<lambda>s. Some 0), validUrl = (\<lambda>u. True), imgSrc = (\<lambda>c. None),
                     trimString = trimAscii \<rparr>"

definition feedA :: feedDoc where
  "feedA = \<lparr> f_id = 1, f_title = ''Source A'', f_url = ''https://a.example/feed'', f_category = ''news'',
             f_feedUrl = None \<rparr>"

definition mkItem :: "string \<Rightarrow> string \<Rightarrow> parsedFeedItem" where
  "mkItem t l = \<lparr> i_title = t, i_description = None, i_content = None, i_link = l, i_pubDate = None,
                  i_author = None, i_guid = Some l, i_contentSnippet = None, i_enclosure = None \<rparr>"

definition firstSync :: "parsedFeedItem list" where
  "firstSync = [mkItem ''One'' ''u1'', mkItem ''Two'' ''u2'', mkItem ''Three'' ''u3'']"

definition secondSync :: "parsedFeedItem list" where
  "secondSync = [mkItem ''One'' ''u1'', mkItem ''Two again'' ''u2'', mkItem ''Four'' ''u4'']"

definition afterFirstSync :: "article list" where
  "afterFirstSync = fst (processFeedItems plainRuntime 0 feedA firstSync [])"

definition retaggedItem :: parsedFeedItem where
  "retaggedItem = (mkItem ''One'' ''u1?ref=x'')\<lparr> i_author := Some ''Bob'' \<rparr>"

definition tenItems :: "parsedFeedItem list" where
  "tenItems = [mkItem ''t1'' ''u1'', mkItem ''t2'' ''u2'', mkItem ''t3'' ''u3'', mkItem ''t4'' [],
               mkItem ''t5'' ''u5'', mkItem ''t6'' ''u6'', mkItem ''t7'' ''u7'', mkItem ''t8'' ''u8'',
               mkItem ''t9'' ''u9'', mkItem ''t10'' ''u10'']"

definition emptySummary :: summary where
  "emptySummary = \<lparr> totalProcessed = 1, totalSaved = 0, totalSkipped = 0, totalErrors = 0, feedResults = [] \<rparr>"

section \<open>Serialization helpers (serialize module)\<close>

text \<open>
  A JavaScript value as the serializer tells values apart: the primitives, a function
  (its source text and the string a call without arguments returns, \<open>None\<close> when the
  call throws), a \<open>Date\<close> (\<open>None\<close> when invalid), a driver \<open>ObjectId\<close> with its
  hexadecimal text, an array, an object with \<open>Object\<close> as its tag (own enumerable
  properties in order), and any other object with the text its \<open>toString()\<close> gives.
  Values are finite trees, so the \<open>seen\<close> set, which only ever holds the ancestors of
  the value at hand, never contains that value and is left out.
\<close>

datatype jsval =
    Null
  | Undefined
  | Str string
  | Num real
  | Bool bool
  | Func string "string option"
  | DateV "real option"
  | ObjectIdV string
  | Arr "jsval list"
  | Obj "(string \<times> jsval) list"
  | Other string

text \<open>The runtime's number and date formatting.\<close>

record engine =
  numberToString :: "real \<Rightarrow> string"
  dateToString :: "real \<Rightarrow> string"
  dateToISOString :: "real \<Rightarrow> string"

text \<open>The pattern \<open>/^[a-f\d]{24}$/i\<close>.\<close>

definition isHexDigit :: "char \<Rightarrow> bool" where
  "isHexDigit c = List.member ''0123456789abcdefABCDEF'' c"

definition looksLikeObjectId :: "string \<Rightarrow> bool" where
  "looksLikeObjectId s = (length s = 24 \<and> list_all isHexDigit s)"

text \<open>
  \<open>toString()\<close> of a value, \<open>None\<close> when there is no such method or the call
  throws. An array joins its elements with commas, null and undefined elements as the
  empty string.
\<close>

fun joinComma :: "string option list \<Rightarrow> string option" where
  "joinComma [] = Some []"
| "joinComma [x] = x"
| "joinComma (x # y # ys) =
     (case x of
        None \<Rightarrow> None
      | Some s \<Rightarrow> (case joinComma (y # ys) of None \<Rightarrow> None | Some r \<Rightarrow> Some (s @ '','' @ r)))"

fun toStringJS :: "engine \<Rightarrow> jsval \<Rightarrow> string option" where
  "toStringJS e Null = None"
| "toStringJS e Undefined = None"
| "toStringJS e (Str s) = Some s"
| "toStringJS e (Num n) = Some (numberToString e n)"
| "toStringJS e (Bool b) = Some (if b then ''true'' else ''false'')"
| "toStringJS e (Func src ret) = Some src"
| "toStringJS e (DateV d) = (case d of None \<Rightarrow> Some ''Invalid Date'' | Some t \<Rightarrow> Some (dateToString e t))"
| "toStringJS e (ObjectIdV h) = Some h"
| "toStringJS e (Arr items) =
     joinComma (map (\<lambda>item. if item = Null \<or> item = Undefined then Some [] else toStringJS e item) items)"
| "toStringJS e (Obj props) =
     (case map_of props ''toString'' of
        None \<Rightarrow> Some ''[object Object]''
      | Some (Func src ret) \<Rightarrow> ret
      | Some other \<Rightarrow> None)"
| "toStringJS e (Other s) = Some s"

text \<open>\<open>isObjectId\<close> and \<open>coerceObjectIdString\<close>, case by case in the source's order.\<close>

definition isObjectId :: "jsval \<Rightarrow> bool" where
  "isObjectId v =
     (case v of
        ObjectIdV h \<Rightarrow> True
      | Obj props \<Rightarrow>
          (map_of props ''_bsontype'' = Some (Str ''ObjectId'') \<or> map_of props ''_bsontype'' = Some (Str ''ObjectID'')
           \<or> (case map_of props ''toHexString'' of Some (Func src ret) \<Rightarrow> True | _ \<Rightarrow> False)
           \<or> (case map_of props ''$oid'' of Some (Str s) \<Rightarrow> True | _ \<Rightarrow> False))
      | _ \<Rightarrow> False)"

definition oidOrUndefined :: "string option \<Rightarrow> string option" where
  "oidOrUndefined s = (case s of None \<Rightarrow> None | Some t \<Rightarrow> if looksLikeObjectId t then Some t else None)"

definition dollarOid :: "jsval \<Rightarrow> string option" where
  "dollarOid v = (case v of Obj props \<Rightarrow> (case map_of props ''$oid'' of Some (Str s) \<Rightarrow> Some s | _ \<Rightarrow> None) | _ \<Rightarrow> None)"

definition toHexStringMethod :: "jsval \<Rightarrow> string option option" where
  "toHexStringMethod v =
     (case v of
        ObjectIdV h \<Rightarrow> Some (Some h)
      | Obj props \<Rightarrow> (case map_of props ''toHexString'' of Some (Func src ret) \<Rightarrow> Some ret | _ \<Rightarrow> None)
      | _ \<Rightarrow> None)"

definition coerceObjectIdString :: "engine \<Rightarrow> jsval \<Rightarrow> string option" where
  "coerceObjectIdString e v =
     (case v of
        Str s \<Rightarrow> oidOrUndefined (Some s)
      | _ \<Rightarrow>
         (case dollarOid v of
            Some s \<Rightarrow> oidOrUndefined (Some s)
          | None \<Rightarrow>
              if isObjectId v
              then oidOrUndefined (case toHexStringMethod v of Some r \<Rightarrow> r | None \<Rightarrow> toStringJS e v)
              else oidOrUndefined (toStringJS e v)))"

text \<open>
  \<open>serializeValue\<close> with its two loops. A driver \<open>ObjectId\<close> always has 24
  hexadecimal digits; an instance with any other text has no enumerable property left to
  copy.
\<close>

record serializeOptions =
  stripUndefined :: bool
  omitKeys :: "string list"

definition DEFAULT_OPTIONS :: serializeOptions where
  "DEFAULT_OPTIONS = \<lparr> stripUndefined = True, omitKeys = [''__v'', ''$__''] \<rparr>"

fun serializeValue :: "engine \<Rightarrow> serializeOptions \<Rightarrow> jsval \<Rightarrow> jsval"
  and serializeItems :: "engine \<Rightarrow> serializeOptions \<Rightarrow> jsval list \<Rightarrow> jsval list"
  and serializeEntries :: "engine \<Rightarrow> serializeOptions \<Rightarrow> (string \<times> jsval) list \<Rightarrow> (string \<times> jsval) list"
where
  "serializeValue e opts Null = Null"
| "serializeValue e opts (Str s) = Str s"
| "serializeValue e opts (Num n) = Num n"
| "serializeValue e opts (Bool b) = Bool b"
| "serializeValue e opts Undefined = Undefined"
| "serializeValue e opts (Func src ret) = Undefined"
| "serializeValue e opts (DateV d) = (case d of None \<Rightarrow> Null | Some t \<Rightarrow> Str (dateToISOString e t))"
| "serializeValue e opts (ObjectIdV h) =
     (case coerceObjectIdString e (ObjectIdV h) of Some oid \<Rightarrow> Str oid | None \<Rightarrow> Obj [])"
| "serializeValue e opts (Arr items) =
     (case coerceObjectIdString e (Arr items) of
        Some oid \<Rightarrow> Str oid
      | None \<Rightarrow> Arr (serializeItems e opts items))"
| "serializeValue e opts (Obj props) =
     (case coerceObjectIdString e (Obj props) of
        Some oid \<Rightarrow> Str oid
      | None \<Rightarrow> Obj (serializeEntries e opts props))"
| "serializeValue e opts (Other s) =
     (case coerceObjectIdString e (Other s) of Some oid \<Rightarrow> Str oid | None \<Rightarrow> Null)"
| "serializeItems e opts [] = []"
| "serializeItems e opts (item # items) =
     (let serializedItem = serializeValue e opts item
      in if serializedItem \<noteq> Undefined then serializedItem # serializeItems e opts items
         else serializeItems e opts items)"
| "serializeEntries e opts [] = []"
| "serializeEntries e opts ((key, val) # entries) =
     (if List.member (omitKeys opts) key then serializeEntries e opts entries
      else (let serializedVal = serializeValue e opts val
            in if serializedVal \<noteq> Undefined \<or> \<not> stripUndefined opts
               then (key, serializedVal) # serializeEntries e opts entries
               else serializeEntries e opts entries))"

text \<open>
  \<open>serializeDoc\<close>: the caller's options over the defaults, then
  \<open>serializeValue(doc, seen, opts) ?? null\<close>.
\<close>

record callerOptions =
  given_stripUndefined :: "bool option"
  given_omitKeys :: "string list option"

definition mergeOptions :: "callerOptions \<Rightarrow> serializeOptions" where
  "mergeOptions options =
     \<lparr> stripUndefined = (case given_stripUndefined options of None \<Rightarrow> stripUndefined DEFAULT_OPTIONS | Some b \<Rightarrow> b),
       omitKeys = (case given_omitKeys options of None \<Rightarrow> omitKeys DEFAULT_OPTIONS | Some ks \<Rightarrow> ks) \<rparr>"

definition noOptions :: callerOptions where
  "noOptions = \<lparr> given_stripUndefined = None, given_omitKeys = None \<rparr>"

definition serializeDoc :: "engine \<Rightarrow> jsval \<Rightarrow> callerOptions \<Rightarrow> jsval" where
  "serializeDoc e doc options =
     (let opts = mergeOptions options;
          r = serializeValue e opts doc
      in if r = Undefined \<or> r = Null then Null else r)"

text \<open>A list holding one id in the wrapped form \<open>{$oid: ...}\<close>.\<close>

definition oidText :: string where
  "oidText = ''507f1f77bcf86cd799439011''"

definition wrappedIdList :: jsval where
  "wrappedIdList = Arr [Obj [(''$oid'', Str oidText)]]"

section \<open>Properties of the hub adapter score\<close>

lemma hubItem_score: "t_huggingFaceScore (transformHuggingFaceModel hubItem) = 27"
  by (simp add: transformHuggingFaceModel_def Let_def downloadScore_def likeScore_def
      trendingBonus_def maxDownloads_def hubItem_def)

lemma documented_lower: "72 < documentedExternalScore 1000000 500 True"
proof -
  have a: "6 \<le> log 10 (1000000 + 1)"
    by (subst le_log_iff) simp_all
  have b: "log 10 (10000000 + 1) \<le> 8"
    by (subst log_le_iff) simp_all
  have c: "0 < log 10 (10000000 + 1)"
    by simp
  have "6 / 8 \<le> log 10 (1000000 + 1) / log 10 (10000000 + 1)"
    using a b c by (intro frac_le) simp_all
  then have "52 < log 10 (1000000 + 1) / log 10 (10000000 + 1) * 70" by simp
  then show ?thesis
    by (simp add: documentedExternalScore_def min_def)
qed

text \<open>
  C1, as stated, fails: for the hub item with 1,000,000 downloads, 500 likes and the
  trending mark, the score of \<open>transformHuggingFaceModel\<close> is not the value of the
  documented logarithmic formula (the code gives 27, the formula more than 72).
\<close>

theorem hub_score_counterexample:
  "t_huggingFaceScore (transformHuggingFaceModel hubItem) \<noteq> documentedExternalScore 1000000 500 True"
  using documented_lower by (simp add: hubItem_score)

text \<open>
  C1, amended: the adapter scales the download count linearly against the reference
  10,000,000 and caps it at 70, adds the likes scaled linearly against 1,000 and capped
  at 20, and adds 10 for a trending item; for the scenario's item the score is 27.
\<close>

theorem hub_score_linear:
  "t_huggingFaceScore (transformHuggingFaceModel hubItem) = 27
   \<and> t_huggingFaceScore (transformHuggingFaceModel m) =
       (if hf_downloads m \<le> 10000000 then hf_downloads m * 7 / 1000000 else 70)
       + (if hf_likes m \<le> 1000 then hf_likes m / 50 else 20)
       + (if hf_trending m then 10 else 0)
   \<and> downloadScore m \<le> 70"
  by (simp add: hubItem_score)
     (simp add: transformHuggingFaceModel_def Let_def downloadScore_def likeScore_def
      trendingBonus_def maxDownloads_def min_def)

section \<open>Properties of ingestion\<close>

lemma matched_iff:
  "matched rt store feed item =
     list_ex (\<lambda>a. a_url a = i_link item \<or> a_originalUrl a = i_link item
                \<or> (a_title a = trimString rt (i_title item) \<and> a_feedId a = f_id feed)) store"
  by (auto simp: matched_def findOne_def existingQuery_def satisfies_def find_None_iff list_ex_iff)

lemma matched_append: "matched rt store feed item \<Longrightarrow> matched rt (store @ ys) feed item"
  by (auto simp: matched_iff list_ex_iff)

lemma matched_new: "matched rt (store @ [newArticle rt now feed item]) feed item"
  by (simp add: matched_iff newArticle_def)

lemma valid_clock:
  "validateArticle rt (newArticle rt now feed item) = validateArticle rt (newArticle rt now' feed item)"
  by (simp add: validateArticle_def newArticle_def split: option.splits)

lemma processItem_matched:
  "matched rt (fst st) feed item \<Longrightarrow>
     processItem rt now feed item st = (fst st, (snd st)\<lparr> skipped := skipped (snd st) + 1 \<rparr>)"
  by (auto simp: processItem_def matched_def)

lemma save_cases:
  "\<not> matched rt store feed item \<Longrightarrow>
     save rt store (newArticle rt now feed item) =
       (if validateArticle rt (newArticle rt now feed item)
        then Inr (store @ [newArticle rt now feed item]) else Inl ValidationError)"
  by (auto simp: save_def matched_iff list_ex_iff newArticle_def)

lemma processItem_new:
  "\<not> matched rt (fst st) feed item \<Longrightarrow>
     processItem rt now feed item st =
       (if validateArticle rt (newArticle rt now feed item)
        then (fst st @ [newArticle rt now feed item], (snd st)\<lparr> saved := saved (snd st) + 1 \<rparr>)
        else (fst st, (snd st)\<lparr> errors := errors (snd st) + 1 \<rparr>))"
proof -
  assume n: "\<not> matched rt (fst st) feed item"
  then have f: "findOne (fst st) (existingQuery rt feed item) = None"
    by (simp add: matched_def)
  show ?thesis
    by (simp add: processItem_def f save_cases [OF n])
qed

lemma processItem_grows: "\<exists>ys. fst (processItem rt now feed item st) = fst st @ ys"
  by (cases "matched rt (fst st) feed item") (simp_all add: processItem_matched processItem_new)

lemma processLoop_grows: "\<exists>ys. fst (processLoop rt now feed items st) = fst st @ ys"
proof (induction items arbitrary: st)
  case Nil
  show ?case by simp
next
  case (Cons item items)
  obtain ys where a: "fst (processItem rt now feed item st) = fst st @ ys"
    using processItem_grows by blast
  obtain zs where b: "fst (processLoop rt now feed items (processItem rt now feed item st))
      = fst (processItem rt now feed item st) @ zs"
    using Cons.IH by blast
  show ?case by (simp add: a b)
qed

lemma processItem_store_counters:
  "fst (processItem rt now feed item (store, c)) = fst (processItem rt now feed item (store, c'))"
  by (cases "matched rt store feed item") (simp_all add: processItem_matched processItem_new)

lemma processItem_count:
  "saved (snd (processItem rt now feed item st)) + skipped (snd (processItem rt now feed item st))
     + errors (snd (processItem rt now feed item st))
   = saved (snd st) + skipped (snd st) + errors (snd st) + 1"
  by (cases "matched rt (fst st) feed item") (simp_all add: processItem_matched processItem_new)

lemma processLoop_count:
  "saved (snd (processLoop rt now feed items st)) + skipped (snd (processLoop rt now feed items st))
     + errors (snd (processLoop rt now feed items st))
   = saved (snd st) + skipped (snd st) + errors (snd st) + length items"
proof (induction items arbitrary: st)
  case Nil
  show ?case by simp
next
  case (Cons item items)
  show ?case using Cons.IH [of "processItem rt now feed item st"] processItem_count [of rt now feed item st]
    by simp
qed

lemmas scenario_defs = processFeedItems_def processItem_def findOne_def existingQuery_def satisfies_def
  save_def newArticle_def validateArticle_def trimAscii_def isAsciiSpace_def withinLength_def extractImageUrl_def
  contentOrDescription_def truthy_def determineContentType_def mkItem_def feedA_def plainRuntime_def

lemma firstSync_counters:
  "snd (processFeedItems plainRuntime 0 feedA firstSync []) = \<lparr> saved = 3, skipped = 0, errors = 0 \<rparr>"
  by (simp add: firstSync_def scenario_defs)

lemma secondSync_counters:
  "snd (processFeedItems plainRuntime 0 feedA secondSync afterFirstSync) = \<lparr> saved = 1, skipped = 2, errors = 0 \<rparr>"
  by (simp add: afterFirstSync_def firstSync_def secondSync_def scenario_defs)

lemma secondSync_titles:
  "map a_title (fst (processFeedItems plainRuntime 0 feedA secondSync afterFirstSync))
     = [''One'', ''Two'', ''Three'', ''Four'']"
  by (simp add: afterFirstSync_def firstSync_def secondSync_def scenario_defs)

text \<open>
  C2, as stated, fails: in the second sync of the scenario the item whose title changed
  is skipped like the unchanged one, so two items are skipped, not one, and the stored
  title stays \<open>Two\<close>.
\<close>

theorem changed_item_counterexample:
  "skipped (snd (processFeedItems plainRuntime 0 feedA secondSync afterFirstSync)) \<noteq> 1
   \<and> map a_title (fst (processFeedItems plainRuntime 0 feedA secondSync afterFirstSync))
       = [''One'', ''Two'', ''Three'', ''Four'']"
  by (simp add: secondSync_counters secondSync_titles)

text \<open>
  C2, amended: an incoming item that the query resolves to a stored article is skipped,
  whether or not its fields differ from the stored ones: the collection is left as it was
  and only the skipped counter grows (the loop has no update path and no updated
  counter). In the scenario the first sync ends with saved=3, skipped=0, errors=0 and the
  second with saved=1, skipped=2, errors=0.
\<close>

theorem existing_item_skipped:
  "(findOne store (existingQuery rt feed item) \<noteq> None \<longrightarrow>
      processItem rt now feed item (store, c) = (store, c\<lparr> skipped := skipped c + 1 \<rparr>))
   \<and> snd (processFeedItems plainRuntime 0 feedA firstSync []) = \<lparr> saved = 3, skipped = 0, errors = 0 \<rparr>
   \<and> snd (processFeedItems plainRuntime 0 feedA secondSync afterFirstSync)
       = \<lparr> saved = 1, skipped = 2, errors = 0 \<rparr>"
  using processItem_matched [of rt "(store, c)" feed item now]
  by (simp add: matched_def firstSync_counters secondSync_counters)

theorem existing_item_skipped_witness:
  "findOne afterFirstSync (existingQuery plainRuntime feedA (mkItem ''Two again'' ''u2'')) \<noteq> None
   \<and> processItem plainRuntime 0 feedA (mkItem ''Two again'' ''u2'') (afterFirstSync, \<lparr> saved = 0, skipped = 1, errors = 0 \<rparr>)
       = (afterFirstSync, \<lparr> saved = 0, skipped = 2, errors = 0 \<rparr>)"
proof -
  have m: "findOne afterFirstSync (existingQuery plainRuntime feedA (mkItem ''Two again'' ''u2'')) \<noteq> None"
    by (simp add: afterFirstSync_def firstSync_def scenario_defs)
  show ?thesis
    using m existing_item_skipped [where store = afterFirstSync and feed = feedA
        and item = "mkItem ''Two again'' ''u2''" and rt = plainRuntime and now = 0
        and c = "\<lparr> saved = 0, skipped = 1, errors = 0 \<rparr>"]
    by simp
qed

text \<open>
  C3, as stated, fails: an item with the title of a stored article of the same feed, but
  another link and another author, is a match for the loop's query and new for the
  ordered rules (no stored URL, external id or title-author-kind triple equals its own).
\<close>

theorem dedup_precedence_counterexample:
  "findOne afterFirstSync (existingQuery plainRuntime feedA retaggedItem) \<noteq> None
   \<and> precedenceDeduplicate (\<lambda>a. None) afterFirstSync feedA retaggedItem = None"
proof -
  have a: "findOne afterFirstSync (existingQuery plainRuntime feedA retaggedItem) \<noteq> None"
    by (simp add: afterFirstSync_def firstSync_def retaggedItem_def scenario_defs)
  have b: "precedenceDeduplicate (\<lambda>a. None) afterFirstSync feedA retaggedItem = None"
    by (simp add: precedenceDeduplicate_def find_None_iff retaggedItem_def mkItem_def)
       (simp add: afterFirstSync_def firstSync_def scenario_defs)
  show ?thesis using a b by simp
qed

text \<open>
  C3, amended: the match/new decision is one disjunctive query without precedence. An
  item matches exactly when some stored article has its link as \<open>url\<close>, or its link as
  \<open>originalUrl\<close>, or its title, trimmed as the schema's setter trims a stored title,
  together with the feed's id; the order of the
  three clauses does not change the decision, the item's author and guid are not
  consulted, and the loop uses the decision only to skip the item.
\<close>

theorem dedup_decision:
  "(findOne store (existingQuery rt feed item) \<noteq> None) =
     list_ex (\<lambda>a. a_url a = i_link item \<or> a_originalUrl a = i_link item
                \<or> (a_title a = trimString rt (i_title item) \<and> a_feedId a = f_id feed)) store
   \<and> (findOne store (rev (existingQuery rt feed item)) \<noteq> None) = (findOne store (existingQuery rt feed item) \<noteq> None)
   \<and> existingQuery rt feed (item\<lparr> i_author := au, i_guid := g \<rparr>) = existingQuery rt feed item
   \<and> (processItem rt now feed item (store, c) = (store, c\<lparr> skipped := skipped c + 1 \<rparr>))
       = (findOne store (existingQuery rt feed item) \<noteq> None)"
proof -
  have a: "(findOne store (existingQuery rt feed item) \<noteq> None) =
     list_ex (\<lambda>a. a_url a = i_link item \<or> a_originalUrl a = i_link item
                \<or> (a_title a = trimString rt (i_title item) \<and> a_feedId a = f_id feed)) store"
    using matched_iff [of rt store feed item] by (simp add: matched_def)
  have b: "(findOne store (rev (existingQuery rt feed item)) \<noteq> None) = (findOne store (existingQuery rt feed item) \<noteq> None)"
    by (auto simp: findOne_def find_None_iff list_ex_iff)
  have c: "existingQuery rt feed (item\<lparr> i_author := au, i_guid := g \<rparr>) = existingQuery rt feed item"
    by (simp add: existingQuery_def)
  have d: "(processItem rt now feed item (store, c) = (store, c\<lparr> skipped := skipped c + 1 \<rparr>))
       = (findOne store (existingQuery rt feed item) \<noteq> None)"
  proof (cases "matched rt store feed item")
    case True
    then show ?thesis using processItem_matched [of rt "(store, c)" feed item now] by (simp add: matched_def)
  next
    case False
    have "skipped (snd (processItem rt now feed item (store, c))) = skipped c"
      using False by (simp add: processItem_new)
    then have "processItem rt now feed item (store, c) \<noteq> (store, c\<lparr> skipped := skipped c + 1 \<rparr>)"
      by auto
    then show ?thesis using False by (simp add: matched_def)
  qed
  show ?thesis using a b c d by simp
qed

section \<open>Properties of double rounding\<close>

lemma rne_int [simp]: "rne (of_int n) = n"
  by (simp add: rne_def)

lemma rne_floor: "\<lfloor>y\<rfloor> \<le> rne y"
  by (simp add: rne_def Let_def)

lemma rne_ceil: "rne y \<le> \<lfloor>y\<rfloor> + 1"
  by (simp add: rne_def Let_def)

lemma rne_mono: "x \<le> y \<Longrightarrow> rne x \<le> rne y"
proof -
  assume xy: "x \<le> y"
  have fm: "\<lfloor>x\<rfloor> \<le> \<lfloor>y\<rfloor>" using xy by (rule floor_mono)
  show ?thesis
  proof (cases "\<lfloor>x\<rfloor> = \<lfloor>y\<rfloor>")
    case True
    then show ?thesis using xy by (auto simp: rne_def Let_def)
  next
    case False
    then have "\<lfloor>x\<rfloor> + 1 \<le> \<lfloor>y\<rfloor>" using fm by simp
    then show ?thesis using rne_ceil [of x] rne_floor [of y] by linarith
  qed
qed

lemma rne_le: "y \<le> of_int n \<Longrightarrow> rne y \<le> n"
  using rne_mono [of y "of_int n"] by simp

lemma rne_ge: "of_int n \<le> y \<Longrightarrow> n \<le> rne y"
  using rne_mono [of "of_int n" y] by simp

lemma two_powr_int: "2 powr (real_of_int k) = (2::real) powi k"
  by (simp add: powr_real_of_int')

lemma log2_ge_iff: "0 < y \<Longrightarrow> (real_of_int k \<le> log 2 y) = (2 powi k \<le> y)"
  using le_log_iff [of 2 y "real_of_int k"] unfolding two_powr_int by simp

lemma log2_less_iff: "0 < y \<Longrightarrow> (log 2 y < real_of_int k) = (y < 2 powi k)"
  using log_less_iff [of 2 y "real_of_int k"] unfolding two_powr_int by simp

lemma expo_bounds:
  assumes "x \<noteq> 0"
  shows "2 powi (expo x) \<le> \<bar>x\<bar>" and "\<bar>x\<bar> < 2 powi (expo x + 1)"
proof -
  have p: "0 < \<bar>x\<bar>" using assms by simp
  have a: "real_of_int (expo x) \<le> log 2 \<bar>x\<bar>" by (simp add: expo_def)
  have b: "log 2 \<bar>x\<bar> < real_of_int (expo x + 1)" unfolding expo_def by linarith
  show "2 powi (expo x) \<le> \<bar>x\<bar>"
    using a log2_ge_iff [OF p] by simp
  show "\<bar>x\<bar> < 2 powi (expo x + 1)"
    using b log2_less_iff [OF p, of "expo x + 1"] by simp
qed

lemma expo_eq:
  assumes "2 powi k \<le> \<bar>x\<bar>" and "\<bar>x\<bar> < 2 powi (k + 1)"
  shows "expo x = k"
proof -
  have "(0::real) < 2 powi k" by simp
  then have p: "0 < \<bar>x\<bar>" using assms(1) by linarith
  have a: "real_of_int k \<le> log 2 \<bar>x\<bar>"
    using assms(1) log2_ge_iff [OF p] by simp
  have b: "log 2 \<bar>x\<bar> < real_of_int (k + 1)"
    using assms(2) log2_less_iff [OF p, of "k + 1"] by simp
  show ?thesis unfolding expo_def using a b by linarith
qed

lemma fl_zero [simp]: "fl 0 = 0"
  by (simp add: fl_def)

lemma fl_eval:
  assumes "2 powi k \<le> \<bar>x\<bar>" and "\<bar>x\<bar> < 2 powi (k + 1)"
  shows "fl x = of_int (rne (x / 2 powi (k - 52))) * 2 powi (k - 52)"
proof -
  have "(0::real) < 2 powi k" by simp
  then have "0 < \<bar>x\<bar>" using assms(1) by linarith
  then have "x \<noteq> 0" by simp
  then show ?thesis by (simp add: fl_def expo_eq [OF assms])
qed

lemma powi_quot: "(2::real) powi a / 2 powi b = 2 powi (a - b)"
  by (simp add: power_int_diff)

lemma powi_prod: "(2::real) powi a * 2 powi b = 2 powi (a + b)"
  by (simp add: power_int_add)

lemma scaled_lower: "(2::real) powi a / 2 powi (a - 52) = real_of_int (2 ^ 52)"
proof -
  have e: "a - (a - 52) = 52" by simp
  have "(2::real) powi a / 2 powi (a - 52) = 2 powi 52" by (simp only: powi_quot e)
  then show ?thesis by simp
qed

lemma scaled_upper: "(2::real) powi (a + 1) / 2 powi (a - 52) = real_of_int (2 ^ 53)"
proof -
  have e: "a + 1 - (a - 52) = 53" by simp
  have "(2::real) powi (a + 1) / 2 powi (a - 52) = 2 powi 53" by (simp only: powi_quot e)
  then show ?thesis by simp
qed

lemma unscaled_lower: "real_of_int (2 ^ 52) * 2 powi (a - 52) = (2::real) powi a"
proof -
  have e: "52 + (a - 52) = a" by simp
  have "(2::real) powi 52 * 2 powi (a - 52) = 2 powi a" by (simp only: powi_prod e)
  then show ?thesis by simp
qed

lemma unscaled_upper: "real_of_int (2 ^ 53) * 2 powi (a - 52) = (2::real) powi (a + 1)"
proof -
  have e: "53 + (a - 52) = a + 1" by simp
  have "(2::real) powi 53 * 2 powi (a - 52) = 2 powi (a + 1)" by (simp only: powi_prod e)
  then show ?thesis by simp
qed

text \<open>For x in the binade of exponent a, the scaled value lies in [2^52, 2^53].\<close>

lemma scaled_bounds:
  assumes "2 powi a \<le> x" and "x \<le> 2 powi (a + 1)"
  shows "real_of_int (2 ^ 52) \<le> x / 2 powi (a - 52)" and "x / 2 powi (a - 52) \<le> real_of_int (2 ^ 53)"
proof -
  have s: "(0::real) < 2 powi (a - 52)" by simp
  have "2 powi a / 2 powi (a - 52) \<le> x / 2 powi (a - 52)"
    using assms(1) s by (simp only: divide_right_mono less_imp_le)
  then show "real_of_int (2 ^ 52) \<le> x / 2 powi (a - 52)" by (simp only: scaled_lower)
  have "x / 2 powi (a - 52) \<le> 2 powi (a + 1) / 2 powi (a - 52)"
    using assms(2) s by (simp only: divide_right_mono less_imp_le)
  then show "x / 2 powi (a - 52) \<le> real_of_int (2 ^ 53)" by (simp only: scaled_upper)
qed

lemma fl_pos_bounds:
  assumes "0 < x"
  shows "2 powi (expo x) \<le> fl x" and "fl x \<le> 2 powi (expo x + 1)"
proof -
  let ?e = "expo x - 52"
  have nz: "x \<noteq> 0" using assms by simp
  have lo: "2 powi (expo x) \<le> x" and hi: "x \<le> 2 powi (expo x + 1)"
    using expo_bounds [OF nz] assms by simp_all
  have s: "(0::real) \<le> 2 powi ?e" by simp
  have ra: "2 ^ 52 \<le> rne (x / 2 powi ?e)" using rne_ge [OF scaled_bounds(1) [OF lo hi]] .
  have rb: "rne (x / 2 powi ?e) \<le> 2 ^ 53" using rne_le [OF scaled_bounds(2) [OF lo hi]] .
  have f: "fl x = real_of_int (rne (x / 2 powi ?e)) * 2 powi ?e"
    using nz by (simp add: fl_def)
  have "real_of_int (2 ^ 52) * 2 powi ?e \<le> real_of_int (rne (x / 2 powi ?e)) * 2 powi ?e"
    using ra s by (intro mult_right_mono) simp_all
  then show "2 powi (expo x) \<le> fl x" by (simp only: f unscaled_lower)
  have "real_of_int (rne (x / 2 powi ?e)) * 2 powi ?e \<le> real_of_int (2 ^ 53) * 2 powi ?e"
    using rb s by (intro mult_right_mono) simp_all
  then show "fl x \<le> 2 powi (expo x + 1)" by (simp only: f unscaled_upper)
qed

lemma fl_neg_bounds:
  assumes "x < 0"
  shows "- (2 powi (expo x + 1)) \<le> fl x" and "fl x \<le> - (2 powi (expo x))"
proof -
  let ?e = "expo x - 52"
  have nz: "x \<noteq> 0" using assms by simp
  have lo: "2 powi (expo x) \<le> - x" and hi: "- x \<le> 2 powi (expo x + 1)"
    using expo_bounds [OF nz] assms by simp_all
  have s: "(0::real) \<le> 2 powi ?e" by simp
  have a: "x / 2 powi ?e \<le> real_of_int (- (2 ^ 52))"
    using scaled_bounds(1) [OF lo hi] by simp
  have b: "real_of_int (- (2 ^ 53)) \<le> x / 2 powi ?e"
    using scaled_bounds(2) [OF lo hi] by simp
  have ra: "rne (x / 2 powi ?e) \<le> - (2 ^ 52)" using rne_le [OF a] .
  have rb: "- (2 ^ 53) \<le> rne (x / 2 powi ?e)" using rne_ge [OF b] .
  have f: "fl x = real_of_int (rne (x / 2 powi ?e)) * 2 powi ?e"
    using nz by (simp add: fl_def)
  have "real_of_int (rne (x / 2 powi ?e)) * 2 powi ?e \<le> real_of_int (- (2 ^ 52)) * 2 powi ?e"
    using ra s by (intro mult_right_mono) simp_all
  moreover have "real_of_int (- (2 ^ 52)) * 2 powi ?e = - (2 powi (expo x))"
    using unscaled_lower [of "expo x"] by simp
  ultimately show "fl x \<le> - (2 powi (expo x))" by (simp only: f)
  have "real_of_int (- (2 ^ 53)) * 2 powi ?e \<le> real_of_int (rne (x / 2 powi ?e)) * 2 powi ?e"
    using rb s by (intro mult_right_mono) simp_all
  moreover have "real_of_int (- (2 ^ 53)) * 2 powi ?e = - (2 powi (expo x + 1))"
    using unscaled_upper [of "expo x"] by simp
  ultimately show "- (2 powi (expo x + 1)) \<le> fl x" by (simp only: f)
qed

lemma fl_same_binade:
  assumes "x \<le> y" and "x \<noteq> 0" and "y \<noteq> 0" and "expo x = expo y"
  shows "fl x \<le> fl y"
proof -
  let ?e = "expo y - 52"
  have s: "(0::real) < 2 powi ?e" by simp
  have "x / 2 powi ?e \<le> y / 2 powi ?e"
    using assms(1) s by (simp only: divide_right_mono less_imp_le)
  then have "rne (x / 2 powi ?e) \<le> rne (y / 2 powi ?e)" by (rule rne_mono)
  then have "real_of_int (rne (x / 2 powi ?e)) * 2 powi ?e \<le> real_of_int (rne (y / 2 powi ?e)) * 2 powi ?e"
    using s by (intro mult_right_mono) simp_all
  then show ?thesis using assms(2,3,4) by (simp add: fl_def)
qed

lemma expo_mono: "0 < x \<Longrightarrow> x \<le> y \<Longrightarrow> expo x \<le> expo y"
  unfolding expo_def by (intro floor_mono) simp

lemma fl_nonneg: "0 \<le> x \<Longrightarrow> 0 \<le> fl x"
proof (cases "x = 0")
  case True
  then show ?thesis by simp
next
  case False
  assume "0 \<le> x"
  then have "0 < x" using False by simp
  from fl_pos_bounds(1) [OF this] have "2 powi (expo x) \<le> fl x" .
  moreover have "(0::real) \<le> 2 powi (expo x)" by simp
  ultimately show ?thesis by linarith
qed

lemma fl_nonpos: "x \<le> 0 \<Longrightarrow> fl x \<le> 0"
proof (cases "x = 0")
  case True
  then show ?thesis by simp
next
  case False
  assume "x \<le> 0"
  then have "x < 0" using False by simp
  from fl_neg_bounds(2) [OF this] have "fl x \<le> - (2 powi (expo x))" .
  moreover have "(0::real) \<le> 2 powi (expo x)" by simp
  ultimately show ?thesis by linarith
qed

lemma fl_mono:
  assumes "x \<le> y"
  shows "fl x \<le> fl y"
proof -
  consider "x \<le> 0" "0 \<le> y" | "0 < x" | "y < 0" by linarith
  then show ?thesis
  proof cases
    case 1
    then show ?thesis using fl_nonpos [of x] fl_nonneg [of y] by linarith
  next
    case 2
    then have py: "0 < y" using assms by linarith
    have le: "expo x \<le> expo y" using expo_mono [OF 2 assms] .
    show ?thesis
    proof (cases "expo x = expo y")
      case True
      show ?thesis using fl_same_binade [OF assms _ _ True] 2 py by simp
    next
      case False
      then have "expo x + 1 \<le> expo y" using le by simp
      then have "(2::real) powi (expo x + 1) \<le> 2 powi (expo y)"
        by (intro power_int_increasing) simp_all
      then show ?thesis
        using fl_pos_bounds(2) [OF 2] fl_pos_bounds(1) [OF py] by linarith
    qed
  next
    case 3
    then have nx: "x < 0" using assms by linarith
    have "0 < - y" "- y \<le> - x" using 3 assms by simp_all
    from expo_mono [OF this] have le: "expo y \<le> expo x" by (simp add: expo_def)
    show ?thesis
    proof (cases "expo x = expo y")
      case True
      show ?thesis using fl_same_binade [OF assms _ _ True] 3 nx by simp
    next
      case False
      then have "expo y + 1 \<le> expo x" using le by simp
      then have "(2::real) powi (expo y + 1) \<le> 2 powi (expo x)"
        by (intro power_int_increasing) simp_all
      then show ?thesis
        using fl_neg_bounds(2) [OF nx] fl_neg_bounds(1) [OF 3] by linarith
    qed
  qed
qed

text \<open>The doubles of the literals and of the products and sums the examples meet.\<close>

lemma fl_085: "fl 0.85 = 7656119366529843 / 9007199254740992"
  by (subst fl_eval [of "-1"]) (simp_all add: rne_def Let_def)

lemma fl_015: "fl 0.15 = 5404319552844595 / 36028797018963968"
  by (subst fl_eval [of "-3"]) (simp_all add: rne_def Let_def)

lemma fl_01: "fl 0.1 = 3602879701896397 / 36028797018963968"
  by (subst fl_eval [of "-4"]) (simp_all add: rne_def Let_def)

lemma fl_1: "fl 1 = 1"
  by (subst fl_eval [of 0]) (simp_all add: rne_def Let_def)

lemma fl_6: "fl 6 = 6"
  by (subst fl_eval [of 2]) (simp_all add: rne_def Let_def)

lemma fl_15: "fl 15 = 15"
  by (subst fl_eval [of 3]) (simp_all add: rne_def Let_def)

lemma fl_100: "fl 100 = 100"
  by (subst fl_eval [of 6]) (simp_all add: rne_def Let_def)

lemma fl_365: "fl 365 = 365"
  by (subst fl_eval [of 8]) (simp_all add: rne_def Let_def)

lemma fl_year: "fl 31536000000 = 31536000000"
  by (subst fl_eval [of 34]) (simp_all add: rne_def Let_def)

lemma fl_three_halves: "fl (3 / 2) = 3 / 2"
  by (subst fl_eval [of 0]) (simp_all add: rne_def Let_def)

lemma fmul_100_085: "fmul 100 (fl 0.85) = 85"
  unfolding fmul_def fl_085 by (subst fl_eval [of 6]) (simp_all add: rne_def Let_def)

lemma fmul_100_015: "fmul 100 (fl 0.15) = 15"
  unfolding fmul_def fl_015 by (subst fl_eval [of 3]) (simp_all add: rne_def Let_def)

lemma fmul_10_015: "fmul 10 (fl 0.15) = 3 / 2"
  unfolding fmul_def fl_015 by (subst fl_eval [of 0]) (simp_all add: rne_def Let_def)

lemma fmul_1_085: "fmul 1 (fl 0.85) = 7656119366529843 / 9007199254740992"
  unfolding fmul_def fl_085 by (subst fl_eval [of "-1"]) (simp_all add: rne_def Let_def)

lemma fmul_31_015: "fmul 31 (fl 0.15) = 5235434566818201 / 1125899906842624"
  unfolding fmul_def fl_015 by (subst fl_eval [of 2]) (simp_all add: rne_def Let_def)

lemma fmul_6_01: "fmul 6 (fl 0.1) = 1351079888211149 / 2251799813685248"
  unfolding fmul_def fl_01 by (subst fl_eval [of "-1"]) (simp_all add: rne_def Let_def)

lemma fl_six_tenths: "fl (1351079888211149 / 2251799813685248) = 1351079888211149 / 2251799813685248"
  by (subst fl_eval [of "-1"]) (simp_all add: rne_def Let_def)

lemma blend_1_31:
  "fadd (fmul 1 (fl 0.85)) (fmul 31 (fl 0.15)) = 6192449487634431 / 1125899906842624"
  unfolding fmul_1_085 fmul_31_015 fadd_def
  by (subst fl_eval [of 2]) (simp_all add: rne_def Let_def)

lemma blend_0_10: "fadd (fmul 0 (fl 0.85)) (fmul 10 (fl 0.15)) = 3 / 2"
  unfolding fmul_10_015 by (simp add: fadd_def fmul_def fl_three_halves)

section \<open>Properties of the blended score\<close>

lemma Math_round_mono: "x \<le> y \<Longrightarrow> Math_round x \<le> Math_round y"
  by (simp add: Math_round_def floor_mono)

lemma Math_round_range: "0 \<le> x \<Longrightarrow> x \<le> 100 \<Longrightarrow> 0 \<le> Math_round x \<and> Math_round x \<le> 100"
  unfolding Math_round_def by (simp add: floor_le_iff le_floor_iff)

lemma aiModel_preSave_final:
  "m_finalScore (aiModel_preSave m) =
     fadd (fmul (m_huggingFaceScore m) (fl 0.85)) (fmul (m_userScore (aiModel_preSave m)) (fl 0.15))"
  by (simp add: aiModel_preSave_def Let_def)

lemma aiModel_preSave_kept:
  "m_huggingFaceScore (aiModel_preSave m) = m_huggingFaceScore m
   \<and> m_userVotes (aiModel_preSave m) = m_userVotes m
   \<and> m_userRating (aiModel_preSave m) = m_userRating m"
  by (simp add: aiModel_preSave_def Let_def)

lemma calculateTrendingScore_update:
  "calculateTrendingScore lg now (this\<lparr> r_trendingScore := x \<rparr>) = calculateTrendingScore lg now this"
  by (simp add: calculateTrendingScore_def)

lemma calculateFinalScore_update:
  "calculateFinalScore lg now (this\<lparr> r_trendingScore := x \<rparr>) = calculateFinalScore lg now this"
  by (simp add: calculateFinalScore_def calculateTrendingScore_update)

lemma calculateTrendingScore_userScore:
  "calculateTrendingScore lg now (this\<lparr> r_userScore := x \<rparr>) = calculateTrendingScore lg now this"
  by (simp add: calculateTrendingScore_def)

text \<open>The blend of a repository, as a function of its two inputs.\<close>

lemma blend_mono:
  "g \<le> g' \<Longrightarrow> u \<le> u' \<Longrightarrow>
     fadd (fmul g (fl 0.85)) (fmul u (fl 0.15)) \<le> fadd (fmul g' (fl 0.85)) (fmul u' (fl 0.15))"
proof -
  assume g: "g \<le> g'" and u: "u \<le> u'"
  have w1: "0 \<le> fl 0.85" and w2: "0 \<le> fl 0.15" by (simp_all add: fl_nonneg)
  have a: "fmul g (fl 0.85) \<le> fmul g' (fl 0.85)"
    unfolding fmul_def using g w1 by (intro fl_mono mult_right_mono)
  have b: "fmul u (fl 0.15) \<le> fmul u' (fl 0.15)"
    unfolding fmul_def using u w2 by (intro fl_mono mult_right_mono)
  show ?thesis unfolding fadd_def using a b by (intro fl_mono add_mono)
qed

lemma blend_range:
  assumes "0 \<le> g" "g \<le> 100" "0 \<le> u" "u \<le> 100"
  shows "0 \<le> fadd (fmul g (fl 0.85)) (fmul u (fl 0.15))"
    and "fadd (fmul g (fl 0.85)) (fmul u (fl 0.15)) \<le> 100"
proof -
  have "fadd (fmul 0 (fl 0.85)) (fmul 0 (fl 0.15)) \<le> fadd (fmul g (fl 0.85)) (fmul u (fl 0.15))"
    using assms by (intro blend_mono)
  then show "0 \<le> fadd (fmul g (fl 0.85)) (fmul u (fl 0.15))"
    by (simp add: fadd_def fmul_def)
  have "fadd (fmul g (fl 0.85)) (fmul u (fl 0.15)) \<le> fadd (fmul 100 (fl 0.85)) (fmul 100 (fl 0.15))"
    using assms by (intro blend_mono)
  then show "fadd (fmul g (fl 0.85)) (fmul u (fl 0.15)) \<le> 100"
    unfolding fmul_100_085 fmul_100_015 by (simp add: fadd_def fl_100)
qed

text \<open>The user scores and the blend of the example model.\<close>

lemma userScore_50_4: "fadd (fmul (fdiv 4 5) 80) (min (fmul (fdiv 50 100) 20) 20) = 74"
proof -
  have a: "fdiv 4 5 = 3602879701896397 / 4503599627370496"
    unfolding fdiv_def by (subst fl_eval [of "-1"]) (simp_all add: rne_def Let_def)
  have b: "fmul (3602879701896397 / 4503599627370496) 80 = 64"
    unfolding fmul_def by (subst fl_eval [of 6]) (simp_all add: rne_def Let_def)
  have c: "fdiv 50 100 = 1 / 2"
    unfolding fdiv_def by (subst fl_eval [of "-1"]) (simp_all add: rne_def Let_def)
  have d: "fmul (1 / 2) 20 = 10"
    unfolding fmul_def by (subst fl_eval [of 3]) (simp_all add: rne_def Let_def)
  have e: "fadd 64 10 = 74"
    unfolding fadd_def by (subst fl_eval [of 6]) (simp_all add: rne_def Let_def)
  show ?thesis unfolding a b c d using e by simp
qed

lemma userScore_50_5: "fadd (fmul (fdiv 5 5) 80) (min (fmul (fdiv 50 100) 20) 20) = 90"
proof -
  have a: "fdiv 5 5 = 1"
    unfolding fdiv_def by (simp add: fl_1)
  have b: "fmul 1 80 = 80"
    unfolding fmul_def by (subst fl_eval [of 6]) (simp_all add: rne_def Let_def)
  have c: "fdiv 50 100 = 1 / 2"
    unfolding fdiv_def by (subst fl_eval [of "-1"]) (simp_all add: rne_def Let_def)
  have d: "fmul (1 / 2) 20 = 10"
    unfolding fmul_def by (subst fl_eval [of 3]) (simp_all add: rne_def Let_def)
  have e: "fadd 80 10 = 90"
    unfolding fadd_def by (subst fl_eval [of 6]) (simp_all add: rne_def Let_def)
  show ?thesis unfolding a b c d using e by simp
qed

lemma userScore_60_5: "fadd (fmul (fdiv 5 5) 80) (min (fmul (fdiv 60 100) 20) 20) = 92"
proof -
  have a: "fdiv 5 5 = 1"
    unfolding fdiv_def by (simp add: fl_1)
  have b: "fmul 1 80 = 80"
    unfolding fmul_def by (subst fl_eval [of 6]) (simp_all add: rne_def Let_def)
  have c: "fdiv 60 100 = 5404319552844595 / 9007199254740992"
    unfolding fdiv_def by (subst fl_eval [of "-1"]) (simp_all add: rne_def Let_def)
  have d: "fmul (5404319552844595 / 9007199254740992) 20 = 12"
    unfolding fmul_def by (subst fl_eval [of 3]) (simp_all add: rne_def Let_def)
  have e: "fadd 80 12 = 92"
    unfolding fadd_def by (subst fl_eval [of 6]) (simp_all add: rne_def Let_def)
  show ?thesis unfolding a b c d using e by simp
qed

lemma blend_27_92: "fadd (fmul 27 (fl 0.85)) (fmul 92 (fl 0.15)) = 36.75"
proof -
  have a: "fmul 27 (fl 0.85) = 6459850715509555 / 281474976710656"
    unfolding fmul_def fl_085 by (subst fl_eval [of 4]) (simp_all add: rne_def Let_def)
  have b: "fmul 92 (fl 0.15) = 7768709357214105 / 562949953421312"
    unfolding fmul_def fl_015 by (subst fl_eval [of 3]) (simp_all add: rne_def Let_def)
  show ?thesis
    unfolding a b fadd_def by (subst fl_eval [of 5]) (simp_all add: rne_def Let_def)
qed

text \<open>The trending scores and the final scores of the examples.\<close>

lemma quiet_parts:
  "fadd 0 1 = 1" "roundedLog10 1 = 0" "fdiv 150 10 = 15" "fsub 15 15 = 0"
  "fsub yearLater 0 = yearLater" "fdiv yearLater 86400000 = 365"
  by (simp_all add: fadd_def fsub_def fdiv_def roundedLog10_def yearLater_def fl_1 fl_15 fl_365 fl_year)

lemma quiet_activity: "max (fsub 15 (fdiv 365 7)) 0 = 0"
proof -
  have "fl 15 \<le> fl (365 / 7)" by (intro fl_mono) simp
  then have "15 - fdiv 365 7 \<le> 0" by (simp add: fdiv_def fl_15)
  then have "fsub 15 (fdiv 365 7) \<le> 0" unfolding fsub_def by (rule fl_nonpos)
  then show ?thesis by simp
qed

lemma quiet_trending: "calculateTrendingScore roundedLog10 yearLater quietRepository = 0"
  by (simp add: calculateTrendingScore_def quietRepository_def Let_def quiet_parts quiet_activity aiTopics_def)
     (simp add: fmul_def fadd_def Math_round_def)

lemma topics_trending:
  "calculateTrendingScore roundedLog10 yearLater (quietRepository\<lparr> r_topics := [''ai'', ''ml'', ''nlp''] \<rparr>) = 1"
  by (simp add: calculateTrendingScore_def quietRepository_def Let_def quiet_parts quiet_activity aiTopics_def)
     (simp add: fmul_def fadd_def fl_6 fmul_6_01 [unfolded fmul_def] fl_six_tenths Math_round_def)

lemma tagged_trending: "calculateTrendingScore roundedLog10 yearLater taggedRepository = 1"
  unfolding taggedRepository_def
  using calculateTrendingScore_userScore
    [where lg = roundedLog10 and now = yearLater and x = 31
       and this = "quietRepository\<lparr> r_topics := [''ai'', ''ml'', ''nlp''] \<rparr>"]
  by (simp add: topics_trending)

lemma quiet_final: "calculateFinalScore roundedLog10 yearLater quietRepository = 2"
proof -
  have u: "r_userScore quietRepository = 10" by (simp add: quietRepository_def)
  show ?thesis
    unfolding calculateFinalScore_def Let_def quiet_trending u blend_0_10
    by (simp add: Math_round_def)
qed

lemma tagged_final: "calculateFinalScore roundedLog10 yearLater taggedRepository = 5"
proof -
  have u: "r_userScore taggedRepository = 31" by (simp add: taggedRepository_def)
  show ?thesis
    unfolding calculateFinalScore_def Let_def tagged_trending u blend_1_31
    by (simp add: Math_round_def)
qed

text \<open>
  C4, as stated, fails for a repository: with a trending score of 0 and a user score of
  10 the blend is 1.5, and the persisted final score is its rounding, 2.
\<close>

theorem finalScore_blend_counterexample:
  "r_finalScore (gitHubRepository_preSave roundedLog10 yearLater yearLater yearLater quietRepository) \<noteq>
     r_trendingScore (gitHubRepository_preSave roundedLog10 yearLater yearLater yearLater quietRepository) * 0.85
     + r_userScore (gitHubRepository_preSave roundedLog10 yearLater yearLater yearLater quietRepository) * 0.15"
proof -
  have u: "r_userScore quietRepository = 10" by (simp add: quietRepository_def)
  show ?thesis
    by (simp add: gitHubRepository_preSave_def Let_def calculateFinalScore_update quiet_final
        quiet_trending u)
qed

text \<open>
  C4, amended: for an AI model the save hook persists the blend
  huggingFaceScore * 0.85 + userScore * 0.15 of the current scores, as computed in double
  precision, on every save that passes validation; a hub sync or a rating update whose
  document passes is persisted with the blend of its new scores, one whose rating, vote
  count or hub score is outside the schema's bounds is rejected and recomputes nothing.
  For a repository the save hook persists \<open>Math.round\<close> of the same blend of the
  trending score and the user score, an integer: a trending score of 1 with a user score
  of 31 gives 5, a trending score of 0 with a user score of 10 gives 2.
\<close>

theorem finalScore_blend:
  "m_finalScore (aiModel_preSave m) =
     fadd (fmul (m_huggingFaceScore (aiModel_preSave m)) (fl 0.85))
          (fmul (m_userScore (aiModel_preSave m)) (fl 0.15))
   \<and> m_huggingFaceScore (aiModel_preSave m) = m_huggingFaceScore m
   \<and> (syncFromHuggingFace now d m = Inr m1 \<longrightarrow>
        m_huggingFaceScore m1 = orZero (d_huggingFaceScore d)
        \<and> m_finalScore m1 = fadd (fmul (orZero (d_huggingFaceScore d)) (fl 0.85))
                                 (fmul (m_userScore m1) (fl 0.15)))
   \<and> (updateUserRating v r m = Inr m2 \<longrightarrow>
        m_userVotes m2 = v \<and> m_userRating m2 = r
        \<and> m_finalScore m2 = fadd (fmul (m_huggingFaceScore m) (fl 0.85))
                                 (fmul (m_userScore m2) (fl 0.15)))
   \<and> (r < 0 \<or> 5 < r \<or> v < 0 \<longrightarrow> updateUserRating v r m = Inl ValidationError)
   \<and> (orZero (d_huggingFaceScore d) < 0 \<or> 100 < orZero (d_huggingFaceScore d) \<longrightarrow>
        syncFromHuggingFace now d m = Inl ValidationError)
   \<and> r_finalScore (gitHubRepository_preSave lg now1 now2 now3 repo) =
       Math_round (fadd (fmul (calculateTrendingScore lg now2 repo) (fl 0.85))
                        (fmul (r_userScore repo) (fl 0.15)))
   \<and> r_trendingScore (gitHubRepository_preSave lg now1 now2 now3 repo) = calculateTrendingScore lg now1 repo
   \<and> r_finalScore (gitHubRepository_preSave lg now1 now2 now3 repo) \<in> \<int>
   \<and> calculateTrendingScore roundedLog10 yearLater taggedRepository = 1
   \<and> r_userScore taggedRepository = 31
   \<and> calculateFinalScore roundedLog10 yearLater taggedRepository = 5
   \<and> calculateFinalScore roundedLog10 yearLater quietRepository = 2"
proof -
  have a: "m_finalScore (aiModel_preSave m) =
     fadd (fmul (m_huggingFaceScore (aiModel_preSave m)) (fl 0.85))
          (fmul (m_userScore (aiModel_preSave m)) (fl 0.15))"
    "m_huggingFaceScore (aiModel_preSave m) = m_huggingFaceScore m"
    by (simp_all add: aiModel_preSave_def Let_def)
  have b: "m_huggingFaceScore m1 = orZero (d_huggingFaceScore d)
        \<and> m_finalScore m1 = fadd (fmul (orZero (d_huggingFaceScore d)) (fl 0.85))
                                 (fmul (m_userScore m1) (fl 0.15))"
    if "syncFromHuggingFace now d m = Inr m1"
    using that
    by (auto simp: syncFromHuggingFace_def aiModel_save_def aiModel_preSave_final aiModel_preSave_kept
             split: if_splits)
  have c: "m_userVotes m2 = v \<and> m_userRating m2 = r
        \<and> m_finalScore m2 = fadd (fmul (m_huggingFaceScore m) (fl 0.85))
                                 (fmul (m_userScore m2) (fl 0.15))"
    if "updateUserRating v r m = Inr m2"
    using that
    by (auto simp: updateUserRating_def aiModel_save_def aiModel_preSave_final aiModel_preSave_kept
             split: if_splits)
  have d: "updateUserRating v r m = Inl ValidationError" if "r < 0 \<or> 5 < r \<or> v < 0"
    using that by (auto simp: updateUserRating_def aiModel_save_def validateAIModel_def)
  have e: "syncFromHuggingFace now d m = Inl ValidationError"
    if "orZero (d_huggingFaceScore d) < 0 \<or> 100 < orZero (d_huggingFaceScore d)"
    using that by (auto simp: syncFromHuggingFace_def aiModel_save_def validateAIModel_def)
  have f: "r_finalScore (gitHubRepository_preSave lg now1 now2 now3 repo) =
       Math_round (fadd (fmul (calculateTrendingScore lg now2 repo) (fl 0.85))
                        (fmul (r_userScore repo) (fl 0.15)))"
    "r_trendingScore (gitHubRepository_preSave lg now1 now2 now3 repo) = calculateTrendingScore lg now1 repo"
    by (simp_all add: gitHubRepository_preSave_def calculateFinalScore_def Let_def
        calculateTrendingScore_update)
  have g: "r_finalScore (gitHubRepository_preSave lg now1 now2 now3 repo) \<in> \<int>"
    unfolding f(1) by (simp add: Math_round_def)
  have h: "r_userScore taggedRepository = 31" by (simp add: taggedRepository_def)
  show ?thesis
    using a b c d e f g h tagged_trending tagged_final quiet_final by blast
qed

theorem finalScore_blend_witness:
  "updateUserRating 60 5 sampleModel = Inr (aiModel_preSave (sampleModel\<lparr> m_userVotes := 60, m_userRating := 5 \<rparr>))
   \<and> m_userScore (aiModel_preSave (sampleModel\<lparr> m_userVotes := 60, m_userRating := 5 \<rparr>)) = 92
   \<and> m_finalScore (aiModel_preSave (sampleModel\<lparr> m_userVotes := 60, m_userRating := 5 \<rparr>)) = 36.75
   \<and> updateUserRating 60 6 sampleModel = Inl ValidationError
   \<and> syncFromHuggingFace 1 sampleData sampleModel
       = Inr (aiModel_preSave (sampleModel\<lparr> m_downloads := 2000000, m_likes := 600, m_trending := True,
                m_huggingFaceScore := 80, m_lastSynced := 1 \<rparr>))
   \<and> m_finalScore (aiModel_preSave (sampleModel\<lparr> m_downloads := 2000000, m_likes := 600, m_trending := True,
                m_huggingFaceScore := 80, m_lastSynced := 1 \<rparr>))
       = fadd (fmul 80 (fl 0.85)) (fmul 74 (fl 0.15))"
proof -
  let ?rated = "aiModel_preSave (sampleModel\<lparr> m_userVotes := 60, m_userRating := 5 \<rparr>)"
  let ?synced = "aiModel_preSave (sampleModel\<lparr> m_downloads := 2000000, m_likes := 600, m_trending := True,
                m_huggingFaceScore := 80, m_lastSynced := 1 \<rparr>)"
  have u: "updateUserRating 60 5 sampleModel = Inr ?rated"
    by (simp add: updateUserRating_def aiModel_save_def validateAIModel_def sampleModel_def)
  have s: "syncFromHuggingFace 1 sampleData sampleModel = Inr ?synced"
    by (simp add: syncFromHuggingFace_def aiModel_save_def validateAIModel_def sampleModel_def
        sampleData_def orZero_def)
  have us: "m_userScore ?rated = 92" "m_userScore ?synced = 74"
    by (simp_all add: aiModel_preSave_def sampleModel_def Let_def userScore_60_5 userScore_50_4)
  have hs: "m_huggingFaceScore sampleModel = 27" "orZero (d_huggingFaceScore sampleData) = 80"
    by (simp_all add: sampleModel_def sampleData_def orZero_def)
  show ?thesis
    using u s
      finalScore_blend [of sampleModel 1 sampleData ?synced 60 5 ?rated]
      finalScore_blend [of sampleModel 1 sampleData ?synced 60 6 ?rated]
    unfolding us hs blend_27_92
    by simp
qed

text \<open>
  C5. When the external score and the local score lie in [0,100], so does the final
  score, and the final score does not decrease when one of the two grows and the other
  stays: for the AI model's save hook (external: the hub score, local: the user score the
  hook computes) and for the repository's \<open>calculateFinalScore\<close> (external: the
  trending score, local: the user score).
\<close>

theorem finalScore_range_monotone:
  "(0 \<le> m_huggingFaceScore m \<and> m_huggingFaceScore m \<le> 100
      \<and> 0 \<le> m_userScore (aiModel_preSave m) \<and> m_userScore (aiModel_preSave m) \<le> 100
     \<longrightarrow> 0 \<le> m_finalScore (aiModel_preSave m) \<and> m_finalScore (aiModel_preSave m) \<le> 100)
   \<and> (m_huggingFaceScore m \<le> m_huggingFaceScore m'
      \<and> m_userScore (aiModel_preSave m) = m_userScore (aiModel_preSave m')
     \<longrightarrow> m_finalScore (aiModel_preSave m) \<le> m_finalScore (aiModel_preSave m'))
   \<and> (m_huggingFaceScore m = m_huggingFaceScore m'
      \<and> m_userScore (aiModel_preSave m) \<le> m_userScore (aiModel_preSave m')
     \<longrightarrow> m_finalScore (aiModel_preSave m) \<le> m_finalScore (aiModel_preSave m'))
   \<and> (0 \<le> calculateTrendingScore lg now r \<and> calculateTrendingScore lg now r \<le> 100
      \<and> 0 \<le> r_userScore r \<and> r_userScore r \<le> 100
     \<longrightarrow> 0 \<le> calculateFinalScore lg now r \<and> calculateFinalScore lg now r \<le> 100)
   \<and> (calculateTrendingScore lg now r \<le> calculateTrendingScore lg' now' r' \<and> r_userScore r = r_userScore r'
     \<longrightarrow> calculateFinalScore lg now r \<le> calculateFinalScore lg' now' r')
   \<and> (calculateTrendingScore lg now r = calculateTrendingScore lg' now' r' \<and> r_userScore r \<le> r_userScore r'
     \<longrightarrow> calculateFinalScore lg now r \<le> calculateFinalScore lg' now' r')"
proof -
  have range_ai: "0 \<le> m_finalScore (aiModel_preSave m) \<and> m_finalScore (aiModel_preSave m) \<le> 100"
    if "0 \<le> m_huggingFaceScore m" "m_huggingFaceScore m \<le> 100"
       "0 \<le> m_userScore (aiModel_preSave m)" "m_userScore (aiModel_preSave m) \<le> 100"
    unfolding aiModel_preSave_final using blend_range [OF that] by simp
  have mono_ai: "m_finalScore (aiModel_preSave m) \<le> m_finalScore (aiModel_preSave m')"
    if "m_huggingFaceScore m \<le> m_huggingFaceScore m'"
       "m_userScore (aiModel_preSave m) \<le> m_userScore (aiModel_preSave m')"
    unfolding aiModel_preSave_final using that by (intro blend_mono)
  have range_repo: "0 \<le> calculateFinalScore lg now r \<and> calculateFinalScore lg now r \<le> 100"
    if "0 \<le> calculateTrendingScore lg now r" "calculateTrendingScore lg now r \<le> 100"
       "0 \<le> r_userScore r" "r_userScore r \<le> 100"
    unfolding calculateFinalScore_def Let_def
    using blend_range [OF that] by (intro Math_round_range)
  have mono_repo: "calculateFinalScore lg now r \<le> calculateFinalScore lg' now' r'"
    if "calculateTrendingScore lg now r \<le> calculateTrendingScore lg' now' r'" "r_userScore r \<le> r_userScore r'"
    unfolding calculateFinalScore_def Let_def
    using that by (intro Math_round_mono blend_mono)
  show ?thesis
    using range_ai mono_ai range_repo mono_repo by simp
qed

theorem finalScore_range_monotone_witness:
  "0 \<le> m_finalScore (aiModel_preSave sampleModel)
   \<and> m_finalScore (aiModel_preSave sampleModel) \<le> 100
   \<and> m_finalScore (aiModel_preSave sampleModel)
       \<le> m_finalScore (aiModel_preSave (sampleModel\<lparr> m_huggingFaceScore := 80 \<rparr>))
   \<and> m_finalScore (aiModel_preSave sampleModel)
       \<le> m_finalScore (aiModel_preSave (sampleModel\<lparr> m_userRating := 5 \<rparr>))
   \<and> 0 \<le> calculateFinalScore roundedLog10 yearLater quietRepository
   \<and> calculateFinalScore roundedLog10 yearLater quietRepository \<le> 100
   \<and> calculateFinalScore roundedLog10 yearLater quietRepository
       \<le> calculateFinalScore roundedLog10 yearLater (quietRepository\<lparr> r_topics := [''ai'', ''ml'', ''nlp''] \<rparr>)
   \<and> calculateFinalScore roundedLog10 yearLater quietRepository
       \<le> calculateFinalScore roundedLog10 yearLater (quietRepository\<lparr> r_userScore := 20 \<rparr>)"
proof -
  have u: "m_userScore (aiModel_preSave sampleModel) = 74"
    "m_userScore (aiModel_preSave (sampleModel\<lparr> m_huggingFaceScore := 80 \<rparr>)) = 74"
    "m_userScore (aiModel_preSave (sampleModel\<lparr> m_userRating := 5 \<rparr>)) = 90"
    by (simp_all add: aiModel_preSave_def sampleModel_def Let_def userScore_50_4 userScore_50_5)
  have h: "m_huggingFaceScore sampleModel = 27"
    by (simp add: sampleModel_def)
  have q: "calculateTrendingScore roundedLog10 yearLater (quietRepository\<lparr> r_userScore := 20 \<rparr>) = 0"
    by (simp add: calculateTrendingScore_userScore quiet_trending)
  have v: "r_userScore quietRepository = 10"
    by (simp add: quietRepository_def)
  show ?thesis
    using finalScore_range_monotone [of sampleModel "sampleModel\<lparr> m_huggingFaceScore := 80 \<rparr>"
        roundedLog10 yearLater quietRepository roundedLog10 yearLater
        "quietRepository\<lparr> r_topics := [''ai'', ''ml'', ''nlp''] \<rparr>"]
      finalScore_range_monotone [of sampleModel "sampleModel\<lparr> m_userRating := 5 \<rparr>"
        roundedLog10 yearLater quietRepository roundedLog10 yearLater
        "quietRepository\<lparr> r_userScore := 20 \<rparr>"]
    by (simp add: u h q v quiet_trending topics_trending)
qed

section \<open>Re-running ingestion\<close>

lemma settled_append: "settled rt feed store item \<Longrightarrow> settled rt feed (store @ ys) item"
  by (auto simp: settled_def matched_append)

lemma processItem_settles: "settled rt feed (fst (processItem rt now feed item st)) item"
proof (cases "matched rt (fst st) feed item")
  case True
  then show ?thesis by (simp add: processItem_matched settled_def)
next
  case False
  then show ?thesis
    using valid_clock [of rt now feed item 0]
    by (simp add: processItem_new settled_def matched_new)
qed

lemma processLoop_settles:
  "list_all (settled rt feed (fst (processLoop rt now feed items st))) items"
proof (induction items arbitrary: st)
  case Nil
  show ?case by simp
next
  case (Cons item items)
  obtain zs where b: "fst (processLoop rt now feed items (processItem rt now feed item st))
      = fst (processItem rt now feed item st) @ zs"
    using processLoop_grows by blast
  have "settled rt feed (fst (processLoop rt now feed items (processItem rt now feed item st))) item"
    unfolding b by (rule settled_append) (rule processItem_settles)
  then show ?case using Cons.IH by simp
qed

lemma processItem_settled:
  "settled rt feed (fst st) item \<Longrightarrow>
     fst (processItem rt now feed item st) = fst st
     \<and> saved (snd (processItem rt now feed item st)) = saved (snd st)"
  using valid_clock [of rt now feed item 0]
  by (cases "matched rt (fst st) feed item") (auto simp: processItem_matched processItem_new settled_def)

lemma processLoop_settled:
  "list_all (settled rt feed (fst st)) items \<Longrightarrow>
     fst (processLoop rt now feed items st) = fst st
     \<and> saved (snd (processLoop rt now feed items st)) = saved (snd st)"
proof (induction items arbitrary: st)
  case Nil
  show ?case by simp
next
  case (Cons item items)
  from Cons.prems have h: "settled rt feed (fst st) item" and t: "list_all (settled rt feed (fst st)) items"
    by simp_all
  have s: "fst (processItem rt now feed item st) = fst st"
    "saved (snd (processItem rt now feed item st)) = saved (snd st)"
    using processItem_settled [OF h] by simp_all
  have "list_all (settled rt feed (fst (processItem rt now feed item st))) items"
    using t by (simp add: s)
  from Cons.IH [OF this] show ?case by (simp add: s)
qed

text \<open>
  C6. Running \<open>processFeedItems\<close> a second time on the same feed and the same items,
  on the collection the first run left, saves nothing and leaves the collection exactly
  as it was: no article is added or changed, so no update takes place and every stored
  field keeps its value. Every item of the second run is skipped or counted as an error.
\<close>

theorem reingestion_idempotent:
  "saved (snd (processFeedItems rt now' feed items (fst (processFeedItems rt now feed items store)))) = 0
   \<and> fst (processFeedItems rt now' feed items (fst (processFeedItems rt now feed items store)))
       = fst (processFeedItems rt now feed items store)
   \<and> skipped (snd (processFeedItems rt now' feed items (fst (processFeedItems rt now feed items store))))
     + errors (snd (processFeedItems rt now' feed items (fst (processFeedItems rt now feed items store))))
       = length items"
proof -
  let ?s1 = "fst (processFeedItems rt now feed items store)"
  let ?c0 = "\<lparr> saved = 0, skipped = 0, errors = 0 \<rparr>"
  have "list_all (settled rt feed ?s1) items"
    unfolding processFeedItems_def by (rule processLoop_settles)
  then have a: "list_all (settled rt feed (fst (?s1, ?c0))) items" by simp
  have b: "fst (processLoop rt now' feed items (?s1, ?c0)) = ?s1
      \<and> saved (snd (processLoop rt now' feed items (?s1, ?c0))) = 0"
    using processLoop_settled [OF a, of now'] by simp
  have c: "saved (snd (processLoop rt now' feed items (?s1, ?c0)))
      + skipped (snd (processLoop rt now' feed items (?s1, ?c0)))
      + errors (snd (processLoop rt now' feed items (?s1, ?c0))) = length items"
    using processLoop_count [of rt now' feed items "(?s1, ?c0)"] by simp
  show ?thesis
    using b c by (simp add: processFeedItems_def [of rt now' feed items ?s1])
qed

section \<open>Properties of the sync bookkeeping\<close>

lemma markSyncError_count:
  "syncErrorCount (fst (markSyncError sv err this)) = syncErrorCount this + 1"
  by (simp add: markSyncError_def Let_def)

lemma markSyncError_flag:
  "isEnabled (fst (markSyncError sv err this)) = (isEnabled this \<and> syncErrorCount this + 1 < 5)"
  by (simp add: markSyncError_def Let_def)

lemma failedRuns_count:
  "syncErrorCount (failedRuns sv errs this) = syncErrorCount this + int (length errs)"
  by (induction errs arbitrary: this) (simp_all add: markSyncError_count)

lemma failedRuns_flag:
  "isEnabled (failedRuns sv errs this) =
     (isEnabled this \<and> (errs = [] \<or> syncErrorCount this + int (length errs) < 5))"
proof (induction errs arbitrary: this)
  case Nil
  show ?case by simp
next
  case (Cons e es)
  show ?case
    by (auto simp: Cons.IH markSyncError_flag markSyncError_count)
qed

text \<open>
  C7. \<open>markSyncError\<close> adds one to the failure counter and records the message, and
  once the counter is 5 or more the account is disabled; so after five or more failed
  runs in a row the account is disabled, and an enabled account that starts at 0 stays
  enabled through fewer than five. \<open>markSyncSuccess\<close> puts the counter back to 0,
  clears the last error, records the time and leaves the enabled flag as it is. Both
  hand the document they leave to \<open>save\<close>.
\<close>

theorem sync_bookkeeping:
  "syncErrorCount (fst (markSyncError sv err this)) = syncErrorCount this + 1
   \<and> lastSyncError (fst (markSyncError sv err this)) = Some err
   \<and> snd (markSyncError sv err this) = sv (fst (markSyncError sv err this))
   \<and> (5 \<le> syncErrorCount (fst (markSyncError sv err this)) \<longrightarrow>
        \<not> isEnabled (fst (markSyncError sv err this)))
   \<and> (0 \<le> syncErrorCount this \<and> 5 \<le> length errs \<longrightarrow> \<not> isEnabled (failedRuns sv errs this))
   \<and> (syncErrorCount this = 0 \<and> isEnabled this \<and> length errs < 5 \<longrightarrow>
        isEnabled (failedRuns sv errs this))
   \<and> syncErrorCount (fst (markSyncSuccess sv now this)) = 0
   \<and> lastSyncError (fst (markSyncSuccess sv now this)) = None
   \<and> lastSyncAt (fst (markSyncSuccess sv now this)) = Some now
   \<and> isEnabled (fst (markSyncSuccess sv now this)) = isEnabled this
   \<and> snd (markSyncSuccess sv now this) = sv (fst (markSyncSuccess sv now this))"
  by (auto simp: failedRuns_flag markSyncError_flag markSyncError_count)
     (simp_all add: markSyncError_def markSyncSuccess_def Let_def)

theorem sync_bookkeeping_witness:
  "\<not> isEnabled (failedRuns id [''e1'', ''e2'', ''e3'', ''e4'', ''e5''] freshAccount)
   \<and> isEnabled (failedRuns id [''e1'', ''e2'', ''e3'', ''e4''] freshAccount)
   \<and> syncErrorCount (failedRuns id [''e1'', ''e2'', ''e3'', ''e4'', ''e5''] freshAccount) = 5
   \<and> syncErrorCount (fst (markSyncSuccess id 7 (failedRuns id [''e1'', ''e2'', ''e3'', ''e4''] freshAccount))) = 0"
  using sync_bookkeeping [of id "''e5''" "failedRuns id [''e1'', ''e2'', ''e3'', ''e4''] freshAccount"
      "[''e1'', ''e2'', ''e3'', ''e4'', ''e5'']" 7]
    sync_bookkeeping [of id "''e5''" freshAccount "[''e1'', ''e2'', ''e3'', ''e4'']" 7]
  by (simp add: freshAccount_def markSyncError_def markSyncSuccess_def Let_def)

section \<open>One failing item in a batch\<close>

lemma persistenceRaises_iff:
  "persistenceRaises rt now feed store item =
     (\<not> matched rt store feed item \<and> \<not> validateArticle rt (newArticle rt now feed item))"
proof (cases "matched rt store feed item")
  case True
  then show ?thesis by (simp add: persistenceRaises_def matched_def)
next
  case False
  then have "findOne store (existingQuery rt feed item) = None" by (simp add: matched_def)
  then show ?thesis using False by (simp add: persistenceRaises_def save_cases)
qed

lemma processItem_errors:
  "errors (snd (processItem rt now feed item st)) =
     errors (snd st) + (if persistenceRaises rt now feed (fst st) item then 1 else 0)"
  by (cases "matched rt (fst st) feed item")
     (simp_all add: processItem_matched processItem_new persistenceRaises_iff)

lemma processLoop_errors:
  "errors (snd (processLoop rt now feed items st)) =
     errors (snd st) + length (filter id (raisedAt rt now feed items (fst st)))"
proof (induction items arbitrary: st)
  case Nil
  show ?case by simp
next
  case (Cons item items)
  have e: "fst (processItem rt now feed item (fst st, \<lparr> saved = 0, skipped = 0, errors = 0 \<rparr>))
      = fst (processItem rt now feed item st)"
    using processItem_store_counters [of rt now feed item "fst st" _ "snd st"] by simp
  show ?case
    using Cons.IH [of "processItem rt now feed item st"] processItem_errors [of rt now feed item st]
    by (simp add: e)
qed

lemma processItem_done:
  "persistenceRaises rt now feed (fst st) item \<or> matched rt (fst (processItem rt now feed item st)) feed item"
  by (cases "matched rt (fst st) feed item")
     (simp_all add: processItem_matched processItem_new persistenceRaises_iff matched_new)

lemma processLoop_done:
  "list_all2 (\<lambda>item raised. raised \<or> matched rt (fst (processLoop rt now feed items st)) feed item)
     items (raisedAt rt now feed items (fst st))"
proof (induction items arbitrary: st)
  case Nil
  show ?case by simp
next
  case (Cons item items)
  let ?st1 = "processItem rt now feed item st"
  have e: "fst (processItem rt now feed item (fst st, \<lparr> saved = 0, skipped = 0, errors = 0 \<rparr>)) = fst ?st1"
    using processItem_store_counters [of rt now feed item "fst st" _ "snd st"] by simp
  obtain zs where g: "fst (processLoop rt now feed items ?st1) = fst ?st1 @ zs"
    using processLoop_grows by blast
  have h: "persistenceRaises rt now feed (fst st) item \<or> matched rt (fst (processLoop rt now feed items ?st1)) feed item"
    using processItem_done [of rt now feed st item] by (auto simp: g matched_append)
  show ?case
    using Cons.IH [of ?st1] h by (simp add: e)
qed

lemma tenItems_raised:
  "raisedAt plainRuntime 0 feedA tenItems [] =
     [False, False, False, True, False, False, False, False, False, False]"
  by (simp add: tenItems_def persistenceRaises_iff matched_iff processItem_new processItem_matched
      mkItem_def feedA_def plainRuntime_def newArticle_def validateArticle_def trimAscii_def isAsciiSpace_def
      withinLength_def extractImageUrl_def contentOrDescription_def truthy_def determineContentType_def)

text \<open>
  C8. When the persistence of exactly one item of a batch raises, the loop counts that
  one error and goes on: the other items are all counted as saved or skipped, each of
  them is found in the collection when the run ends, and \<open>processAllFeeds\<close> records
  the feed, whose parsing did not fail, with the status success, adding the one error to
  its total.
\<close>

theorem partial_failure_isolated:
  assumes "length (filter id (raisedAt rt now feed items store)) = 1"
    and "parseFeed (f_url feed) = Some items"
  shows "errors (snd (processFeedItems rt now feed items store)) = 1
       \<and> saved (snd (processFeedItems rt now feed items store))
           + skipped (snd (processFeedItems rt now feed items store)) = length items - 1
       \<and> list_all2 (\<lambda>item raised. raised \<or>
             findOne (fst (processFeedItems rt now feed items store)) (existingQuery rt feed item) \<noteq> None)
           items (raisedAt rt now feed items store)
       \<and> map fr_status (feedResults (snd (processFeed rt now parseFeed feed (store, sm))))
           = map fr_status (feedResults sm) @ [StatusSuccess]
       \<and> totalErrors (snd (processFeed rt now parseFeed feed (store, sm))) = totalErrors sm + 1"
proof -
  let ?c0 = "\<lparr> saved = 0, skipped = 0, errors = 0 \<rparr>"
  have e: "errors (snd (processFeedItems rt now feed items store)) = 1"
    using processLoop_errors [of rt now feed items "(store, ?c0)"] assms(1)
    by (simp add: processFeedItems_def)
  have "saved (snd (processFeedItems rt now feed items store))
      + skipped (snd (processFeedItems rt now feed items store))
      + errors (snd (processFeedItems rt now feed items store)) = length items"
    using processLoop_count [of rt now feed items "(store, ?c0)"]
    by (simp add: processFeedItems_def)
  then have n: "saved (snd (processFeedItems rt now feed items store))
      + skipped (snd (processFeedItems rt now feed items store)) = length items - 1"
    using e by simp
  have d: "list_all2 (\<lambda>item raised. raised \<or>
             findOne (fst (processFeedItems rt now feed items store)) (existingQuery rt feed item) \<noteq> None)
           items (raisedAt rt now feed items store)"
    using processLoop_done [of rt now feed items "(store, ?c0)"]
    by (simp add: processFeedItems_def matched_def)
  have s: "map fr_status (feedResults (snd (processFeed rt now parseFeed feed (store, sm))))
           = map fr_status (feedResults sm) @ [StatusSuccess]"
    by (simp add: processFeed_def assms(2) Let_def)
  have t: "totalErrors (snd (processFeed rt now parseFeed feed (store, sm))) = totalErrors sm + 1"
    using e by (simp add: processFeed_def assms(2) Let_def)
  show ?thesis using e n d s t by simp
qed

theorem partial_failure_isolated_witness:
  "length (filter id (raisedAt plainRuntime 0 feedA tenItems [])) = 1
   \<and> (\<lambda>u. Some tenItems) (f_url feedA) = Some tenItems
   \<and> errors (snd (processFeedItems plainRuntime 0 feedA tenItems [])) = 1
   \<and> saved (snd (processFeedItems plainRuntime 0 feedA tenItems []))
       + skipped (snd (processFeedItems plainRuntime 0 feedA tenItems [])) = 9
   \<and> map fr_status (feedResults (snd (processFeed plainRuntime 0 (\<lambda>u. Some tenItems) feedA ([], emptySummary))))
       = [StatusSuccess]"
proof -
  have r: "length (filter id (raisedAt plainRuntime 0 feedA tenItems [])) = 1"
    by (simp add: tenItems_raised)
  have l: "length tenItems = 10"
    by (simp add: tenItems_def)
  show ?thesis
    using r partial_failure_isolated [OF r, of "\<lambda>u. Some tenItems" emptySummary] l
    by (simp add: emptySummary_def)
qed

section \<open>Properties of the pagination metadata\<close>

text \<open>
  C9. For a positive limit and a non-negative total count, the metadata has at least one
  page, the current page lies between 1 and the number of pages whatever page was asked
  for (a request below 1 gives page 1, a request beyond the last page gives the last page,
  a request in range is kept), and the two flags say whether a next and a previous page
  exist.
\<close>

theorem buildPagination_clamped:
  assumes "0 < lmt" and "0 \<le> cnt"
  shows "1 \<le> totalPages (buildPagination page lmt cnt)
       \<and> 1 \<le> currentPage (buildPagination page lmt cnt)
       \<and> currentPage (buildPagination page lmt cnt) \<le> totalPages (buildPagination page lmt cnt)
       \<and> (page < 1 \<longrightarrow> currentPage (buildPagination page lmt cnt) = 1)
       \<and> (totalPages (buildPagination page lmt cnt) < page \<longrightarrow>
            currentPage (buildPagination page lmt cnt) = totalPages (buildPagination page lmt cnt))
       \<and> (1 \<le> page \<and> page \<le> totalPages (buildPagination page lmt cnt) \<longrightarrow>
            currentPage (buildPagination page lmt cnt) = page)
       \<and> hasNext (buildPagination page lmt cnt) =
            (currentPage (buildPagination page lmt cnt) < totalPages (buildPagination page lmt cnt))
       \<and> hasPrev (buildPagination page lmt cnt) = (currentPage (buildPagination page lmt cnt) > 1)
       \<and> totalPages (buildPagination page lmt cnt) = max 1 (of_int \<lceil>cnt / lmt\<rceil>)"
  by (simp add: buildPagination_def Let_def)

theorem buildPagination_clamped_witness:
  "(0::real) < 10 \<and> (0::real) \<le> 25
   \<and> totalPages (buildPagination 7 10 25) = 3
   \<and> currentPage (buildPagination 7 10 25) = 3
   \<and> hasNext (buildPagination 7 10 25) = False
   \<and> hasPrev (buildPagination 7 10 25) = True"
  using buildPagination_clamped [of 10 25 7] by (simp add: max_def min_def)

section \<open>Properties of the serializer\<close>

lemmas serialize_defs = serializeDoc_def mergeOptions_def noOptions_def DEFAULT_OPTIONS_def
  coerceObjectIdString_def dollarOid_def isObjectId_def toHexStringMethod_def oidOrUndefined_def
  looksLikeObjectId_def isHexDigit_def oidText_def

lemma wrappedIdList_first: "serializeDoc e wrappedIdList noOptions = Arr [Str oidText]"
  by (simp add: wrappedIdList_def serialize_defs)

lemma wrappedIdList_second: "serializeDoc e (Arr [Str oidText]) noOptions = Str oidText"
  by (simp add: serialize_defs)

text \<open>
  C10 at the list \<open>[{$oid: '507f1f77bcf86cd799439011'}]\<close>: the first pass gives the
  list of the one id text, and serializing that result again gives the bare text, since
  the list's \<open>toString()\<close> is its only element and looks like an id. The second pass
  differs from the first.
\<close>

theorem serializeDoc_not_idempotent:
  "serializeDoc e wrappedIdList noOptions = Arr [Str oidText]
   \<and> serializeDoc e (serializeDoc e wrappedIdList noOptions) noOptions = Str oidText
   \<and> serializeDoc e (serializeDoc e wrappedIdList noOptions) noOptions
       \<noteq> serializeDoc e wrappedIdList noOptions"
  by (simp add: wrappedIdList_first wrappedIdList_second)

end
